theory Spec2Isabelle
  imports Complex_Main "HOL-Library.Word"
begin

section \<open>The objects the LiveView component holds\<close>

text \<open>
  The component of \<^verbatim>\<open>src/components/LiveView.tsx\<close> keeps its React state
  (\<^verbatim>\<open>isActive\<close>, \<^verbatim>\<open>status\<close>, \<^verbatim>\<open>errorMessage\<close>) and a number of refs to
  browser objects. The browser objects are mutable and shared (a buffer source is
  referenced by the set of scheduled sources and by the audio graph), so they live in
  stores indexed by object identity; a ref holds an identity or \<^verbatim>\<open>null\<close>.
  JavaScript numbers are modelled as reals. A callback of the component runs to
  completion before the next one starts, except \<^verbatim>\<open>onmessage\<close>: it is async and
  gives way to other callbacks at its one \<^verbatim>\<open>await\<close>.
\<close>

datatype status = Disconnected | Connecting | Connected | Error

datatype js_error = InvalidStateError | RangeError | DeviceError | ConnectError | DecodeError

datatype log_entry = ConsoleLog string | ConsoleError string

record audio_buffer =
  channelData :: "real list"
  bufferSampleRate :: nat

definition duration :: "audio_buffer \<Rightarrow> real" where
  "duration b = real (length (channelData b)) / real (bufferSampleRate b)"

record buffer_source =
  buffer :: "audio_buffer option"
  toDestination :: bool
  startedAt :: "real option"
  stopped :: bool

record audio_context =
  sampleRate :: nat
  ctxClosed :: bool

datatype track_state = Live | Ended

record audio_node =
  nodeConnected :: bool

record remote_session =
  sessionClosed :: bool

record live_view =
  isActive :: bool
  status :: status
  errorMessage :: "string option"
  inputContextRef :: "nat option"
  outputContextRef :: "nat option"
  streamRef :: "nat option"
  sourceRef :: "nat option"
  processorRef :: "nat option"
  nextStartTimeRef :: real
  scheduledSourcesRef :: "nat list"
  sessionRef :: "nat option"
  contexts :: "nat \<Rightarrow> audio_context"
  contextCount :: nat
  streams :: "nat \<Rightarrow> track_state list"
  streamCount :: nat
  nodes :: "nat \<Rightarrow> audio_node"
  nodeCount :: nat
  sources :: "nat \<Rightarrow> buffer_source"
  sourceCount :: nat
  sessions :: "nat \<Rightarrow> remote_session"
  sessionCount :: nat
  console :: "log_entry list"

text \<open>The state at mount: the initial values of \<^verbatim>\<open>useState\<close> and \<^verbatim>\<open>useRef\<close>, no object created.\<close>

definition mounted :: live_view where
  "mounted = \<lparr> isActive = False, status = Disconnected, errorMessage = None,
     inputContextRef = None, outputContextRef = None, streamRef = None,
     sourceRef = None, processorRef = None,
     nextStartTimeRef = 0, scheduledSourcesRef = [], sessionRef = None,
     contexts = (\<lambda>_. \<lparr> sampleRate = 0, ctxClosed = False \<rparr>), contextCount = 0,
     streams = (\<lambda>_. []), streamCount = 0,
     nodes = (\<lambda>_. \<lparr> nodeConnected = False \<rparr>), nodeCount = 0,
     sources = (\<lambda>_. \<lparr> buffer = None, toDestination = False, startedAt = None, stopped = False \<rparr>),
     sourceCount = 0,
     sessions = (\<lambda>_. \<lparr> sessionClosed = False \<rparr>), sessionCount = 0,
     console = [] \<rparr>"

text \<open>
  A callback either returns or throws; what it wrote before throwing stays written.
\<close>

datatype outcome = Returned live_view | Threw js_error live_view

fun andThen :: "outcome \<Rightarrow> (live_view \<Rightarrow> outcome) \<Rightarrow> outcome" where
  "andThen (Returned s) f = f s"
| "andThen (Threw e s) f = Threw e s"

fun stateOf :: "outcome \<Rightarrow> live_view" where
  "stateOf (Returned s) = s"
| "stateOf (Threw e s) = s"

definition consoleLog :: "string \<Rightarrow> live_view \<Rightarrow> live_view" where
  "consoleLog msg s = s\<lparr> console := console s @ [ConsoleLog msg] \<rparr>"

definition consoleError :: "string \<Rightarrow> live_view \<Rightarrow> live_view" where
  "consoleError msg s = s\<lparr> console := console s @ [ConsoleError msg] \<rparr>"

section \<open>Playback scheduling (the \<^verbatim>\<open>onmessage\<close> callback)\<close>

text \<open>
  \<^verbatim>\<open>Set.add\<close> and \<^verbatim>\<open>Set.delete\<close> on the insertion-ordered set of scheduled sources.
\<close>

definition setAdd :: "nat \<Rightarrow> nat list \<Rightarrow> nat list" where
  "setAdd h hs = (if h \<in> set hs then hs else hs @ [h])"

definition setDelete :: "nat \<Rightarrow> nat list \<Rightarrow> nat list" where
  "setDelete h hs = removeAll h hs"

text \<open>
  \<^verbatim>\<open>source.start(when)\<close> throws a RangeError for a negative time;
  \<^verbatim>\<open>source.stop()\<close> throws on a source that was already stopped (the case the
  source's comment names).
\<close>

definition sourceStart :: "real \<Rightarrow> buffer_source \<Rightarrow> js_error + buffer_source" where
  "sourceStart when src =
     (if when < 0 then Inl RangeError
      else if startedAt src \<noteq> None then Inl InvalidStateError
      else Inr (src\<lparr> startedAt := Some when \<rparr>))"

definition sourceStop :: "buffer_source \<Rightarrow> js_error + buffer_source" where
  "sourceStop src =
     (if stopped src then Inl InvalidStateError else Inr (src\<lparr> stopped := True \<rparr>))"

text \<open>
  Lines 143 to 159: create the source for a decoded buffer, start it at the cursor
  (moved up to the clock \<open>currentTime\<close> when it lags behind), advance the cursor by the
  buffer's duration and add the source to the set of scheduled sources.
\<close>

definition schedulePlayback :: "real \<Rightarrow> audio_buffer \<Rightarrow> live_view \<Rightarrow> outcome" where
  "schedulePlayback currentTime audioBuffer s =
     (let source = sourceCount s;
          s1 = s\<lparr> sources := (sources s)(source :=
                   \<lparr> buffer = Some audioBuffer, toDestination = True,
                     startedAt = None, stopped = False \<rparr>),
                 sourceCount := Suc (sourceCount s) \<rparr>;
          s2 = (if nextStartTimeRef s1 < currentTime
                then s1\<lparr> nextStartTimeRef := currentTime \<rparr> else s1)
      in case sourceStart (nextStartTimeRef s2) (sources s2 source) of
           Inl e \<Rightarrow> Threw e s2
         | Inr started \<Rightarrow>
             Returned (s2\<lparr> sources := (sources s2)(source := started),
                          nextStartTimeRef := nextStartTimeRef s2 + duration audioBuffer,
                          scheduledSourcesRef := setAdd source (scheduledSourcesRef s2) \<rparr>))"

text \<open>The \<^verbatim>\<open>onended\<close> callback of a source: it leaves the set when playback completes.\<close>

definition onended :: "nat \<Rightarrow> live_view \<Rightarrow> live_view" where
  "onended source s = s\<lparr> scheduledSourcesRef := setDelete source (scheduledSourcesRef s) \<rparr>"

text \<open>
  \<^verbatim>\<open>scheduledSourcesRef.current.forEach(src => { try { src.stop(); } catch(e){} })\<close>:
  a throwing stop is swallowed and the loop goes on.
\<close>

fun stopAll :: "nat list \<Rightarrow> (nat \<Rightarrow> buffer_source) \<Rightarrow> (nat \<Rightarrow> buffer_source)" where
  "stopAll [] store = store"
| "stopAll (h # hs) store =
     stopAll hs (case sourceStop (store h) of Inl e \<Rightarrow> store | Inr src \<Rightarrow> store(h := src))"

text \<open>Lines 168 to 172: stop every scheduled source, clear the set, reset the cursor.\<close>

definition handleInterruption :: "live_view \<Rightarrow> live_view" where
  "handleInterruption s =
     s\<lparr> sources := stopAll (scheduledSourcesRef s) (sources s),
        scheduledSourcesRef := [],
        nextStartTimeRef := 0 \<rparr>"

text \<open>
  The inbound message, with the optional fields the callback reads:
  \<^verbatim>\<open>message.serverContent?.modelTurn?.parts?.[0]?.inlineData?.data\<close> and
  \<^verbatim>\<open>message.serverContent?.interrupted\<close>.
\<close>

record inline_data =
  data :: "string option"

record part =
  inlineData :: "inline_data option"

record content =
  parts :: "part list option"

record server_content =
  modelTurn :: "content option"
  interrupted :: "bool option"

record live_server_message =
  serverContent :: "server_content option"

fun firstOf :: "'a list \<Rightarrow> 'a option" where
  "firstOf [] = None"
| "firstOf (x # xs) = Some x"

definition base64Audio :: "live_server_message \<Rightarrow> string option" where
  "base64Audio message =
     (case serverContent message of None \<Rightarrow> None
      | Some sc \<Rightarrow> (case modelTurn sc of None \<Rightarrow> None
      | Some mt \<Rightarrow> (case parts mt of None \<Rightarrow> None
      | Some ps \<Rightarrow> (case firstOf ps of None \<Rightarrow> None
      | Some p \<Rightarrow> (case inlineData p of None \<Rightarrow> None
      | Some d \<Rightarrow> data d)))))"

definition isInterrupted :: "live_server_message \<Rightarrow> bool" where
  "isInterrupted message =
     (case serverContent message of None \<Rightarrow> False | Some sc \<Rightarrow> interrupted sc = Some True)"

text \<open>
  The module \<^verbatim>\<open>../utils/audioUtils\<close> is imported by the component and is not among
  the sources, so its two decoding functions are parameters: each returns its result or
  the error it throws.
\<close>

record audio_utils =
  base64ToUint8Array :: "string \<Rightarrow> js_error + 8 word list"
  decodeAudioData :: "8 word list \<Rightarrow> nat \<Rightarrow> nat \<Rightarrow> js_error + audio_buffer"

text \<open>The body of the \<^verbatim>\<open>try\<close> block, lines 140 to 159.\<close>

definition decodeAndSchedule :: "audio_utils \<Rightarrow> real \<Rightarrow> string \<Rightarrow> live_view \<Rightarrow> outcome" where
  "decodeAndSchedule utils currentTime b64 s =
     (case base64ToUint8Array utils b64 of
        Inl e \<Rightarrow> Threw e s
      | Inr uint8 \<Rightarrow>
          (case decodeAudioData utils uint8 24000 1 of
             Inl e \<Rightarrow> Threw e s
           | Inr audioBuffer \<Rightarrow> schedulePlayback currentTime audioBuffer s))"

text \<open>Lines 137 to 163: the payload, when truthy, is decoded and scheduled; a throw is logged.\<close>

definition handleAudioOutput :: "audio_utils \<Rightarrow> real \<Rightarrow> live_server_message \<Rightarrow> live_view \<Rightarrow> live_view" where
  "handleAudioOutput utils currentTime message s =
     (case base64Audio message of
        None \<Rightarrow> s
      | Some b64 \<Rightarrow>
          if b64 = [] then s
          else (case decodeAndSchedule utils currentTime b64 s of
                  Returned s' \<Rightarrow> s'
                | Threw e s' \<Rightarrow> consoleError ''Error decoding audio'' s'))"

text \<open>
  The callback, lines 132 to 174, run from its first line to its last with no other
  callback in between: the case in which the awaited \<^verbatim>\<open>decodeAudioData\<close> settles before
  anything else runs. \<open>currentTime\<close> is what \<^verbatim>\<open>outputCtx.currentTime\<close> reads at line
  148. The two halves of the callback around its \<^verbatim>\<open>await\<close> follow below.
\<close>

definition onmessage :: "audio_utils \<Rightarrow> real \<Rightarrow> live_server_message \<Rightarrow> live_view \<Rightarrow> live_view" where
  "onmessage utils currentTime message s =
     (case outputContextRef s of
        None \<Rightarrow> s
      | Some outputCtx \<Rightarrow>
          (let s1 = handleAudioOutput utils currentTime message s
           in if isInterrupted message
              then handleInterruption (consoleLog ''Interrupted!'' s1)
              else s1))"

text \<open>
  The callback is async. With a truthy payload that \<^verbatim>\<open>base64ToUint8Array\<close> accepts it
  calls \<^verbatim>\<open>decodeAudioData\<close> and suspends at the \<^verbatim>\<open>await\<close> of line 141; the lines
  after it run when the decode has settled, and other callbacks can run in between. A
  suspended callback keeps what its decode settles to (the buffer, or the error of a
  rejection) and whether its message carries the interruption flag.
\<close>

record suspended =
  awaited :: "js_error + audio_buffer"
  flagged :: bool

text \<open>Lines 166 to 173, for a message that carries the flag or does not.\<close>

definition interruptionTail :: "bool \<Rightarrow> live_view \<Rightarrow> live_view" where
  "interruptionTail flag s =
     (if flag then handleInterruption (consoleLog ''Interrupted!'' s) else s)"

text \<open>
  Lines 133 to 141: the callback up to its \<^verbatim>\<open>await\<close>, or to its end when it never
  reaches one (no output context, no truthy payload, or \<^verbatim>\<open>base64ToUint8Array\<close> throws
  and the \<^verbatim>\<open>catch\<close> logs it). Up to the \<^verbatim>\<open>await\<close> nothing is written.
\<close>

definition onmessageBegin :: "audio_utils \<Rightarrow> live_server_message \<Rightarrow> live_view \<Rightarrow> live_view \<times> suspended option" where
  "onmessageBegin utils message s =
     (case outputContextRef s of
        None \<Rightarrow> (s, None)
      | Some outputCtx \<Rightarrow>
          (case base64Audio message of
             None \<Rightarrow> (interruptionTail (isInterrupted message) s, None)
           | Some b64 \<Rightarrow>
               if b64 = [] then (interruptionTail (isInterrupted message) s, None)
               else (case base64ToUint8Array utils b64 of
                       Inl e \<Rightarrow>
                         (interruptionTail (isInterrupted message)
                            (consoleError ''Error decoding audio'' s), None)
                     | Inr uint8 \<Rightarrow>
                         (s, Some \<lparr> awaited = decodeAudioData utils uint8 24000 1,
                                   flagged = isInterrupted message \<rparr>))))"

text \<open>
  Lines 141 to 173: the callback from its \<^verbatim>\<open>await\<close> on, in the state that it finds
  when the decode has settled. \<open>currentTime\<close> is the clock reading of line 148.
\<close>

definition onmessageResume :: "real \<Rightarrow> suspended \<Rightarrow> live_view \<Rightarrow> live_view" where
  "onmessageResume currentTime h s =
     interruptionTail (flagged h)
       (case awaited h of
          Inl e \<Rightarrow> consoleError ''Error decoding audio'' s
        | Inr audioBuffer \<Rightarrow>
            (case schedulePlayback currentTime audioBuffer s of
               Returned s' \<Rightarrow> s'
             | Threw e s' \<Rightarrow> consoleError ''Error decoding audio'' s'))"




section \<open>Teardown (\<^verbatim>\<open>stopSession\<close>)\<close>

text \<open>
  The calls into the browser and the SDK that the teardown makes. Which of them throw is
  a parameter \<open>raises\<close> of the teardown; \<^verbatim>\<open>source.stop()\<close> is not among them, it throws
  when the source was already stopped.
\<close>

datatype release_call =
  SessionClose | TrackStop nat | SourceDisconnect | ProcessorDisconnect
  | InputContextClose | OutputContextClose

text \<open>Lines 31 to 38.\<close>

definition closeApiSession :: "(release_call \<Rightarrow> bool) \<Rightarrow> live_view \<Rightarrow> outcome" where
  "closeApiSession raises s =
     (case sessionRef s of
        None \<Rightarrow> Returned s
      | Some k \<Rightarrow>
          (let s1 = (if raises SessionClose then consoleError ''Error closing session'' s
                     else s\<lparr> sessions := (sessions s)(k := \<lparr> sessionClosed = True \<rparr>) \<rparr>)
           in Returned (s1\<lparr> sessionRef := None \<rparr>)))"

text \<open>
  \<^verbatim>\<open>getTracks().forEach(track => track.stop())\<close>: the loop ends at the first throw.
\<close>

fun stopTracks :: "(release_call \<Rightarrow> bool) \<Rightarrow> nat \<Rightarrow> track_state list \<Rightarrow> js_error option \<times> track_state list" where
  "stopTracks raises i [] = (None, [])"
| "stopTracks raises i (t # ts) =
     (if raises (TrackStop i) then (Some DeviceError, t # ts)
      else (case stopTracks raises (Suc i) ts of (e, ts') \<Rightarrow> (e, Ended # ts')))"

text \<open>Lines 41 to 44.\<close>

definition stopMicrophoneStream :: "(release_call \<Rightarrow> bool) \<Rightarrow> live_view \<Rightarrow> outcome" where
  "stopMicrophoneStream raises s =
     (case streamRef s of
        None \<Rightarrow> Returned s
      | Some st \<Rightarrow>
          (case stopTracks raises 0 (streams s st) of
             (Some e, ts) \<Rightarrow> Threw e (s\<lparr> streams := (streams s)(st := ts) \<rparr>)
           | (None, ts) \<Rightarrow> Returned (s\<lparr> streams := (streams s)(st := ts), streamRef := None \<rparr>)))"

text \<open>Lines 47 to 50.\<close>

definition disconnectSource :: "(release_call \<Rightarrow> bool) \<Rightarrow> live_view \<Rightarrow> outcome" where
  "disconnectSource raises s =
     (case sourceRef s of
        None \<Rightarrow> Returned s
      | Some n \<Rightarrow>
          if raises SourceDisconnect then Threw DeviceError s
          else Returned (s\<lparr> nodes := (nodes s)(n := \<lparr> nodeConnected = False \<rparr>), sourceRef := None \<rparr>))"

text \<open>Lines 51 to 54.\<close>

definition disconnectProcessor :: "(release_call \<Rightarrow> bool) \<Rightarrow> live_view \<Rightarrow> outcome" where
  "disconnectProcessor raises s =
     (case processorRef s of
        None \<Rightarrow> Returned s
      | Some n \<Rightarrow>
          if raises ProcessorDisconnect then Threw DeviceError s
          else Returned (s\<lparr> nodes := (nodes s)(n := \<lparr> nodeConnected = False \<rparr>), processorRef := None \<rparr>))"

text \<open>Lines 55 to 58.\<close>

definition closeInputContext :: "(release_call \<Rightarrow> bool) \<Rightarrow> live_view \<Rightarrow> outcome" where
  "closeInputContext raises s =
     (case inputContextRef s of
        None \<Rightarrow> Returned s
      | Some c \<Rightarrow>
          if raises InputContextClose then Threw DeviceError s
          else Returned (s\<lparr> contexts := (contexts s)(c := (contexts s c)\<lparr> ctxClosed := True \<rparr>),
                            inputContextRef := None \<rparr>))"

text \<open>Lines 61 to 66.\<close>

definition stopOutputAudio :: "live_view \<Rightarrow> outcome" where
  "stopOutputAudio s =
     Returned (s\<lparr> sources := stopAll (scheduledSourcesRef s) (sources s),
                  scheduledSourcesRef := [] \<rparr>)"

text \<open>Lines 68 to 71.\<close>

definition closeOutputContext :: "(release_call \<Rightarrow> bool) \<Rightarrow> live_view \<Rightarrow> outcome" where
  "closeOutputContext raises s =
     (case outputContextRef s of
        None \<Rightarrow> Returned s
      | Some c \<Rightarrow>
          if raises OutputContextClose then Threw DeviceError s
          else Returned (s\<lparr> contexts := (contexts s)(c := (contexts s c)\<lparr> ctxClosed := True \<rparr>),
                            outputContextRef := None \<rparr>))"

text \<open>Lines 73 to 75.\<close>

definition resetState :: "live_view \<Rightarrow> outcome" where
  "resetState s = Returned (s\<lparr> isActive := False, status := Disconnected, nextStartTimeRef := 0 \<rparr>)"

definition stopSession :: "(release_call \<Rightarrow> bool) \<Rightarrow> live_view \<Rightarrow> outcome" where
  "stopSession raises s =
     andThen (andThen (andThen (andThen (andThen (andThen (andThen
       (closeApiSession raises s)
       (stopMicrophoneStream raises))
       (disconnectSource raises))
       (disconnectProcessor raises))
       (closeInputContext raises))
       stopOutputAudio)
       (closeOutputContext raises))
       resetState"

section \<open>Session start and the lifecycle callbacks\<close>

text \<open>
  What the browser and the SDK answer to the calls of \<^verbatim>\<open>startSession\<close>: whether a
  context constructor throws, whether \<^verbatim>\<open>getUserMedia\<close> rejects, how many tracks the
  granted stream has, whether \<^verbatim>\<open>ai.live.connect\<close> throws at once. Otherwise the
  connection is pending when \<^verbatim>\<open>startSession\<close> is done, and its promise resolves or
  rejects later.
\<close>

record browser =
  inputContextThrows :: bool
  outputContextThrows :: bool
  getUserMediaRejects :: bool
  micTracks :: nat
  connectThrows :: bool

text \<open>The \<^verbatim>\<open>catch\<close> block of \<^verbatim>\<open>startSession\<close>, lines 200 to 204.\<close>

definition startFailed :: "live_view \<Rightarrow> live_view" where
  "startFailed s =
     (consoleError ''Failed to start session:'' s)
       \<lparr> errorMessage := Some ''Microphone access denied or API unavailable.'',
         status := Error \<rparr>"

text \<open>Lines 78 to 205, up to the pending connection.\<close>

definition startSession :: "browser \<Rightarrow> live_view \<Rightarrow> live_view" where
  "startSession b s =
     (let s0 = s\<lparr> errorMessage := None, status := Connecting \<rparr> in
      if inputContextThrows b then startFailed s0
      else
        let inputCtx = contextCount s0;
            s1 = s0\<lparr> contexts := (contexts s0)(inputCtx := \<lparr> sampleRate = 16000, ctxClosed = False \<rparr>),
                     contextCount := Suc inputCtx \<rparr>
        in
        if outputContextThrows b then startFailed s1
        else
          let outputCtx = contextCount s1;
              s2 = s1\<lparr> contexts := (contexts s1)(outputCtx := \<lparr> sampleRate = 24000, ctxClosed = False \<rparr>),
                       contextCount := Suc outputCtx,
                       inputContextRef := Some inputCtx,
                       outputContextRef := Some outputCtx \<rparr>
          in
          if getUserMediaRejects b then startFailed s2
          else
            let stream = streamCount s2;
                s3 = s2\<lparr> streams := (streams s2)(stream := replicate (micTracks b) Live),
                         streamCount := Suc stream,
                         streamRef := Some stream \<rparr>
            in
            if connectThrows b then startFailed s3 else s3)"

text \<open>Lines 192 and 193: the promise of the connection resolves with the session.\<close>

definition connectResolved :: "live_view \<Rightarrow> live_view" where
  "connectResolved s =
     s\<lparr> sessions := (sessions s)(sessionCount s := \<lparr> sessionClosed = False \<rparr>),
        sessionCount := Suc (sessionCount s),
        sessionRef := Some (sessionCount s) \<rparr>"

text \<open>Lines 194 to 198: the promise of the connection rejects.\<close>

definition connectRejected :: "live_view \<Rightarrow> live_view" where
  "connectRejected s =
     (consoleError ''Connection failed'' s)
       \<lparr> errorMessage := Some ''Failed to connect to Gemini Live.'',
         status := Error \<rparr>"

text \<open>
  Lines 107 to 131: the session is open; the microphone source and the script processor
  are created, kept in their refs and connected. The \<^verbatim>\<open>onaudioprocess\<close> callback of
  the processor, which encodes and sends the captured frames, writes none of the state
  kept here and is left out.
\<close>

definition onopen :: "live_view \<Rightarrow> live_view" where
  "onopen s =
     (let s1 = (consoleLog ''Live session opened'' s)\<lparr> status := Connected, isActive := True \<rparr>;
          source = nodeCount s1;
          processor = Suc (nodeCount s1)
      in s1\<lparr> nodes := (nodes s1)(source := \<lparr> nodeConnected = True \<rparr>,
                                   processor := \<lparr> nodeConnected = True \<rparr>),
             nodeCount := Suc (Suc (nodeCount s1)),
             sourceRef := Some source,
             processorRef := Some processor \<rparr>)"

text \<open>Lines 175 to 178.\<close>

definition onclose :: "(release_call \<Rightarrow> bool) \<Rightarrow> live_view \<Rightarrow> outcome" where
  "onclose raises s = stopSession raises (consoleLog ''Live session closed'' s)"

text \<open>Lines 179 to 184.\<close>

definition onerror :: "(release_call \<Rightarrow> bool) \<Rightarrow> live_view \<Rightarrow> outcome" where
  "onerror raises s =
     andThen
       (stopSession raises
          ((consoleError ''Live session error'' s)\<lparr> errorMessage := Some ''Connection error occurred.'' \<rparr>))
       (\<lambda>s'. Returned (s'\<lparr> status := Error \<rparr>))"

text \<open>
  The button, lines 226 to 228: \<^verbatim>\<open>onClick={isActive ? stopSession : startSession}\<close>
  and \<^verbatim>\<open>disabled={status === 'connecting'}\<close>. A click on a disabled button does nothing.
\<close>

definition buttonDisabled :: "live_view \<Rightarrow> bool" where
  "buttonDisabled s = (status s = Connecting)"

definition onClick :: "browser \<Rightarrow> (release_call \<Rightarrow> bool) \<Rightarrow> live_view \<Rightarrow> outcome" where
  "onClick b raises s =
     (if isActive s then stopSession raises s else Returned (startSession b s))"

definition click :: "browser \<Rightarrow> (release_call \<Rightarrow> bool) \<Rightarrow> live_view \<Rightarrow> outcome" where
  "click b raises s = (if buttonDisabled s then Returned s else onClick b raises s)"

section \<open>The sample codec\<close>

text \<open>
  Modelled from the spec: the module \<^verbatim>\<open>../utils/audioUtils\<close> with the conversion
  between samples and 16-bit PCM is not among the sources. Section 4.1 of the spec:
  the encoder "clamps each sample to [-1,1], scales to a 16-bit signed integer, writes
  little-endian", the decoder is the "inverse mapping, dividing by the signed 16-bit
  range". How the scaled sample is rounded to an integer the spec does not say; it is the
  parameter \<open>rnd\<close>.
\<close>

definition clampSample :: "real \<Rightarrow> real" where
  "clampSample x = max (- 1) (min 1 x)"

definition scaleToInt16 :: "(real \<Rightarrow> int) \<Rightarrow> real \<Rightarrow> int" where
  "scaleToInt16 rnd x = max (- 32768) (min 32767 (rnd (clampSample x * 32768)))"

definition int16Bytes :: "int \<Rightarrow> 8 word list" where
  "int16Bytes k = (let w = (word_of_int k :: 16 word) in [ucast w, ucast (drop_bit 8 w)])"

definition encodeToPCM16 :: "(real \<Rightarrow> int) \<Rightarrow> real list \<Rightarrow> 8 word list" where
  "encodeToPCM16 rnd samples = concat (map (\<lambda>x. int16Bytes (scaleToInt16 rnd x)) samples)"

fun decodeFromPCM16 :: "8 word list \<Rightarrow> real list" where
  "decodeFromPCM16 (lo # hi # rest) =
     real_of_int (sint (word_cat hi lo :: 16 word)) / 32768 # decodeFromPCM16 rest"
| "decodeFromPCM16 [b] = []"
| "decodeFromPCM16 [] = []"

section \<open>Notions used to state the properties\<close>

text \<open>The message as it is without its model turn, that is, without any audio payload.\<close>

definition withoutAudio :: "live_server_message \<Rightarrow> live_server_message" where
  "withoutAudio message =
     message\<lparr> serverContent := map_option (\<lambda>sc. sc\<lparr> modelTurn := None \<rparr>) (serverContent message) \<rparr>"

text \<open>The buffer that the payload of a message decodes to, if it has one and it decodes.\<close>

definition decodedChunk :: "audio_utils \<Rightarrow> live_server_message \<Rightarrow> audio_buffer option" where
  "decodedChunk utils message =
     (case base64Audio message of
        None \<Rightarrow> None
      | Some b64 \<Rightarrow>
          if b64 = [] then None
          else (case base64ToUint8Array utils b64 of
                  Inl e \<Rightarrow> None
                | Inr uint8 \<Rightarrow>
                    (case decodeAudioData utils uint8 24000 1 of
                       Inl e \<Rightarrow> None
                     | Inr audioBuffer \<Rightarrow> Some audioBuffer)))"

text \<open>
  While the component holds no output context, nothing is scheduled and the cursor is
  zero. This holds at mount and is kept by every callback that runs as one step; an
  \<^verbatim>\<open>onmessage\<close> that was suspended and resumes after a teardown schedules its buffer
  all the same and does not keep it.
\<close>

definition idleWhenReleased :: "live_view \<Rightarrow> bool" where
  "idleWhenReleased s =
     (outputContextRef s = None \<longrightarrow> scheduledSourcesRef s = [] \<and> nextStartTimeRef s = 0)"

text \<open>When a started source with a buffer ends, on the output clock.\<close>

definition endsAt :: "buffer_source \<Rightarrow> real option" where
  "endsAt src =
     (case startedAt src of
        None \<Rightarrow> None
      | Some t \<Rightarrow> (case buffer src of None \<Rightarrow> None | Some b \<Rightarrow> Some (t + duration b)))"

text \<open>
  The sources created from identity \<open>k\<close> on play one after the other: a later one
  starts no earlier than an earlier one ends, and the cursor is past all their ends.
\<close>

definition playedInOrder :: "nat \<Rightarrow> live_view \<Rightarrow> bool" where
  "playedInOrder k s =
     (\<forall>h \<in> set [k ..< sourceCount s].
        (case endsAt (sources s h) of
           None \<Rightarrow> True
         | Some e \<Rightarrow>
             e \<le> nextStartTimeRef s
             \<and> (\<forall>h' \<in> set [Suc h ..< sourceCount s].
                   (case startedAt (sources s h') of None \<Rightarrow> True | Some t' \<Rightarrow> e \<le> t'))))"






text \<open>
  The teardown is through: every ref is cleared, nothing is scheduled, the state is
  Disconnected.
\<close>

definition torn :: "live_view \<Rightarrow> bool" where
  "torn s = (sessionRef s = None \<and> streamRef s = None \<and> sourceRef s = None
     \<and> processorRef s = None \<and> inputContextRef s = None \<and> outputContextRef s = None
     \<and> scheduledSourcesRef s = [] \<and> \<not> isActive s \<and> status s = Disconnected
     \<and> nextStartTimeRef s = 0)"

text \<open>
  The release calls of the teardown that stand outside any \<^verbatim>\<open>try\<close>, for the objects the
  refs of a state hold.
\<close>

definition unguardedCalls :: "live_view \<Rightarrow> release_call list" where
  "unguardedCalls s =
     (case streamRef s of None \<Rightarrow> [] | Some st \<Rightarrow> map TrackStop [0 ..< length (streams s st)])
     @ (case sourceRef s of None \<Rightarrow> [] | Some n \<Rightarrow> [SourceDisconnect])
     @ (case processorRef s of None \<Rightarrow> [] | Some n \<Rightarrow> [ProcessorDisconnect])
     @ (case inputContextRef s of None \<Rightarrow> [] | Some c \<Rightarrow> [InputContextClose])
     @ (case outputContextRef s of None \<Rightarrow> [] | Some c \<Rightarrow> [OutputContextClose])"

text \<open>What a teardown that runs through all its steps leaves behind.\<close>

definition tornDown :: "(release_call \<Rightarrow> bool) \<Rightarrow> live_view \<Rightarrow> live_view" where
  "tornDown raises s =
     s\<lparr> sessions :=
          (case sessionRef s of
             None \<Rightarrow> sessions s
           | Some k \<Rightarrow> if raises SessionClose then sessions s
                       else (sessions s)(k := \<lparr> sessionClosed = True \<rparr>)),
        console :=
          (case sessionRef s of
             None \<Rightarrow> console s
           | Some k \<Rightarrow> if raises SessionClose
                       then console s @ [ConsoleError ''Error closing session'']
                       else console s),
        sessionRef := None,
        streams :=
          (case streamRef s of
             None \<Rightarrow> streams s
           | Some st \<Rightarrow> (streams s)(st := replicate (length (streams s st)) Ended)),
        streamRef := None,
        nodes :=
          (let n1 = (case sourceRef s of
                       None \<Rightarrow> nodes s
                     | Some n \<Rightarrow> (nodes s)(n := \<lparr> nodeConnected = False \<rparr>))
           in case processorRef s of
                None \<Rightarrow> n1
              | Some n \<Rightarrow> n1(n := \<lparr> nodeConnected = False \<rparr>)),
        sourceRef := None,
        processorRef := None,
        contexts :=
          (let c1 = (case inputContextRef s of
                       None \<Rightarrow> contexts s
                     | Some c \<Rightarrow> (contexts s)(c := (contexts s c)\<lparr> ctxClosed := True \<rparr>))
           in case outputContextRef s of
                None \<Rightarrow> c1
              | Some c \<Rightarrow> c1(c := (c1 c)\<lparr> ctxClosed := True \<rparr>)),
        inputContextRef := None,
        outputContextRef := None,
        sources := stopAll (scheduledSourcesRef s) (sources s),
        scheduledSourcesRef := [],
        isActive := False,
        status := Disconnected,
        nextStartTimeRef := 0 \<rparr>"

text \<open>The part of the state that playback scheduling reads and writes, the sources apart.\<close>

definition playbackView :: "live_view \<Rightarrow> nat option \<times> nat list \<times> real" where
  "playbackView s = (outputContextRef s, scheduledSourcesRef s, nextStartTimeRef s)"


fun threw :: "outcome \<Rightarrow> bool" where
  "threw (Returned s) = False"
| "threw (Threw e s) = True"

section \<open>Sample inputs\<close>

text \<open>
  A browser that grants everything and one that denies the microphone; decoding functions
  that reject the payload \<open>''!''\<close> and byte arrays of odd length; a message with an
  audio payload and, or, the interruption flag; a session that was started and opened.
\<close>

definition grantingBrowser :: browser where
  "grantingBrowser = \<lparr> inputContextThrows = False, outputContextThrows = False,
     getUserMediaRejects = False, micTracks = 1, connectThrows = False \<rparr>"

definition denyingBrowser :: browser where
  "denyingBrowser = \<lparr> inputContextThrows = False, outputContextThrows = False,
     getUserMediaRejects = True, micTracks = 0, connectThrows = False \<rparr>"

definition sampleUtils :: audio_utils where
  "sampleUtils = \<lparr>
     base64ToUint8Array = (\<lambda>b64. if b64 = ''!'' then Inl DecodeError
                                 else Inr (replicate (length b64) 0)),
     decodeAudioData = (\<lambda>uint8 rate channels.
        if odd (length uint8) then Inl DecodeError
        else Inr \<lparr> channelData = replicate (length uint8 div 2) 0, bufferSampleRate = rate \<rparr>) \<rparr>"

definition sampleMessage :: "string option \<Rightarrow> bool \<Rightarrow> live_server_message" where
  "sampleMessage payload flag =
     \<lparr> serverContent = Some
         \<lparr> modelTurn = Some \<lparr> parts = Some [\<lparr> inlineData = Some \<lparr> data = payload \<rparr> \<rparr>] \<rparr>,
           interrupted = (if flag then Some True else None) \<rparr> \<rparr>"

definition liveSession :: live_view where
  "liveSession = connectResolved (onopen (startSession grantingBrowser mounted))"

definition playingSession :: live_view where
  "playingSession = onmessage sampleUtils 3 (sampleMessage (Some ''AAAA'') False) liveSession"

text \<open>
  A session whose only scheduled source was already stopped, and three answers to which
  release calls throw: none, the stop of the first microphone track, the close of the
  remote session.
\<close>

definition haltedSession :: live_view where
  "haltedSession =
     playingSession\<lparr> sources := (sources playingSession)
                        (0 := (sources playingSession 0)\<lparr> stopped := True \<rparr>) \<rparr>"

definition noFault :: "release_call \<Rightarrow> bool" where
  "noFault call = False"

definition trackFault :: "release_call \<Rightarrow> bool" where
  "trackFault call = (call = TrackStop 0)"

definition closeFault :: "release_call \<Rightarrow> bool" where
  "closeFault call = (call = SessionClose)"

text \<open>Rounding towards zero, as a store into a typed array of integers does.\<close>

definition truncateToInt :: "real \<Rightarrow> int" where
  "truncateToInt y = (if 0 \<le> y then \<lfloor>y\<rfloor> else \<lceil>y\<rceil>)"



section \<open>Properties of playback scheduling\<close>

lemma stopAll_keeps: "stopped (store h) \<Longrightarrow> stopped (stopAll hs store h)"
  by (induction hs arbitrary: store) (auto simp: sourceStop_def)

lemma stopAll_stopped: "h \<in> set hs \<Longrightarrow> stopped (stopAll hs store h)"
proof (induction hs arbitrary: store)
  case Nil
  then show ?case by simp
next
  case (Cons a hs)
  show ?case
  proof (cases "h = a")
    case True
    then show ?thesis by (auto simp: sourceStop_def intro: stopAll_keeps)
  next
    case False
    with Cons show ?thesis by simp
  qed
qed

lemma stopAll_other: "h \<notin> set hs \<Longrightarrow> stopAll hs store h = store h"
  by (induction hs arbitrary: store) (auto simp: sourceStop_def)

lemma stopAll_fields:
  "buffer (stopAll hs store h) = buffer (store h) \<and> startedAt (stopAll hs store h) = startedAt (store h)
   \<and> toDestination (stopAll hs store h) = toDestination (store h)"
  by (induction hs arbitrary: store) (auto simp: sourceStop_def)

lemma schedulePlayback_ok:
  assumes "0 \<le> max currentTime (nextStartTimeRef s)"
  shows "schedulePlayback currentTime b s =
     Returned (s\<lparr> sources := (sources s)(sourceCount s :=
                     \<lparr> buffer = Some b, toDestination = True,
                       startedAt = Some (max currentTime (nextStartTimeRef s)), stopped = False \<rparr>),
                  sourceCount := Suc (sourceCount s),
                  nextStartTimeRef := max currentTime (nextStartTimeRef s) + duration b,
                  scheduledSourcesRef := setAdd (sourceCount s) (scheduledSourcesRef s) \<rparr>)"
  using assms by (auto simp: schedulePlayback_def sourceStart_def Let_def max_def)

lemma duration_nonneg: "0 \<le> duration b"
  by (simp add: duration_def)

text \<open>
  Claim C1. Three buffers are enqueued one after the other, each before the clock has
  passed the cursor (faster than real time). Every enqueue starts its buffer at the
  maximum of the clock and the cursor and moves the cursor on by the buffer's duration,
  so the buffers start at \<open>t\<close>, \<open>t + d1\<close> and \<open>t + d1 + d2\<close>, where \<open>t\<close> is the start
  of the first: no gap and no overlap.
\<close>

theorem C1_gapless_schedule:
  assumes clock: "0 \<le> currentTime1"
    and t: "t = max currentTime1 (nextStartTimeRef s)"
    and fast2: "currentTime2 \<le> t + duration b1"
    and fast3: "currentTime3 \<le> t + duration b1 + duration b2"
  shows "\<exists>s1 s2 s3.
           schedulePlayback currentTime1 b1 s = Returned s1
         \<and> schedulePlayback currentTime2 b2 s1 = Returned s2
         \<and> schedulePlayback currentTime3 b3 s2 = Returned s3
         \<and> max currentTime2 (nextStartTimeRef s1) = t + duration b1
         \<and> max currentTime3 (nextStartTimeRef s2) = t + duration b1 + duration b2
         \<and> nextStartTimeRef s1 = t + duration b1
         \<and> nextStartTimeRef s2 = t + duration b1 + duration b2
         \<and> nextStartTimeRef s3 = t + duration b1 + duration b2 + duration b3
         \<and> sources s3 (sourceCount s) =
               \<lparr> buffer = Some b1, toDestination = True, startedAt = Some t, stopped = False \<rparr>
         \<and> sources s3 (Suc (sourceCount s)) =
               \<lparr> buffer = Some b2, toDestination = True,
                 startedAt = Some (t + duration b1), stopped = False \<rparr>
         \<and> sources s3 (Suc (Suc (sourceCount s))) =
               \<lparr> buffer = Some b3, toDestination = True,
                 startedAt = Some (t + duration b1 + duration b2), stopped = False \<rparr>"
proof -
  have t0: "0 \<le> t" using clock t by simp
  define s1 where "s1 = stateOf (schedulePlayback currentTime1 b1 s)"
  have r1: "schedulePlayback currentTime1 b1 s = Returned s1"
    unfolding s1_def using t0 t by (simp add: schedulePlayback_ok)
  have n1: "nextStartTimeRef s1 = t + duration b1" and c1: "sourceCount s1 = Suc (sourceCount s)"
    and a1: "sources s1 (sourceCount s) =
               \<lparr> buffer = Some b1, toDestination = True, startedAt = Some t, stopped = False \<rparr>"
    unfolding s1_def using t0 t by (simp_all add: schedulePlayback_ok)
  have m2: "max currentTime2 (nextStartTimeRef s1) = t + duration b1"
    using fast2 n1 by simp
  have p2: "0 \<le> max currentTime2 (nextStartTimeRef s1)"
    using m2 t0 duration_nonneg [of b1] by simp
  define s2 where "s2 = stateOf (schedulePlayback currentTime2 b2 s1)"
  have r2: "schedulePlayback currentTime2 b2 s1 = Returned s2"
    unfolding s2_def using p2 by (simp add: schedulePlayback_ok)
  have n2: "nextStartTimeRef s2 = t + duration b1 + duration b2"
    and c2: "sourceCount s2 = Suc (Suc (sourceCount s))"
    and a2: "sources s2 (sourceCount s) =
               \<lparr> buffer = Some b1, toDestination = True, startedAt = Some t, stopped = False \<rparr>"
    and b2: "sources s2 (Suc (sourceCount s)) =
               \<lparr> buffer = Some b2, toDestination = True,
                 startedAt = Some (t + duration b1), stopped = False \<rparr>"
    unfolding s2_def using p2 m2 c1 a1 by (simp_all add: schedulePlayback_ok)
  have m3: "max currentTime3 (nextStartTimeRef s2) = t + duration b1 + duration b2"
    using fast3 n2 by simp
  have p3: "0 \<le> max currentTime3 (nextStartTimeRef s2)"
    using m3 t0 duration_nonneg [of b1] duration_nonneg [of b2] by simp
  define s3 where "s3 = stateOf (schedulePlayback currentTime3 b3 s2)"
  have r3: "schedulePlayback currentTime3 b3 s2 = Returned s3"
    unfolding s3_def using p3 by (simp add: schedulePlayback_ok)
  have n3: "nextStartTimeRef s3 = t + duration b1 + duration b2 + duration b3"
    and a3: "sources s3 (sourceCount s) =
               \<lparr> buffer = Some b1, toDestination = True, startedAt = Some t, stopped = False \<rparr>"
    and b3: "sources s3 (Suc (sourceCount s)) =
               \<lparr> buffer = Some b2, toDestination = True,
                 startedAt = Some (t + duration b1), stopped = False \<rparr>"
    and c3: "sources s3 (Suc (Suc (sourceCount s))) =
               \<lparr> buffer = Some b3, toDestination = True,
                 startedAt = Some (t + duration b1 + duration b2), stopped = False \<rparr>"
    unfolding s3_def using p3 m3 c2 a2 b2 by (simp_all add: schedulePlayback_ok)
  show ?thesis
    using r1 r2 r3 m2 m3 n1 n2 n3 a3 b3 c3 by simp
qed

theorem C1_gapless_schedule_witness:
  "\<exists>s1 s2 s3.
      schedulePlayback 2 \<lparr> channelData = [0, 0], bufferSampleRate = 4 \<rparr> mounted = Returned s1
    \<and> schedulePlayback 2 \<lparr> channelData = [0, 0, 0, 0], bufferSampleRate = 4 \<rparr> s1 = Returned s2
    \<and> schedulePlayback 3 \<lparr> channelData = [0], bufferSampleRate = 4 \<rparr> s2 = Returned s3
    \<and> startedAt (sources s3 0) = Some 2
    \<and> startedAt (sources s3 (Suc 0)) = Some (5 / 2)
    \<and> startedAt (sources s3 (Suc (Suc 0))) = Some (7 / 2)
    \<and> nextStartTimeRef s3 = 15 / 4"
proof -
  have h1: "(0::real) \<le> 2" by simp
  have h2: "(2::real) = max 2 (nextStartTimeRef mounted)" by (simp add: mounted_def)
  have h3: "(2::real) \<le> 2 + duration \<lparr> channelData = [0, 0], bufferSampleRate = 4 \<rparr>"
    by (simp add: duration_def)
  have h4: "(3::real) \<le> 2 + duration \<lparr> channelData = [0, 0], bufferSampleRate = 4 \<rparr>
                + duration \<lparr> channelData = [0, 0, 0, 0], bufferSampleRate = 4 \<rparr>"
    by (simp add: duration_def)
  have c: "sourceCount mounted = 0" by (simp add: mounted_def)
  from C1_gapless_schedule [where ?b3.0 = "\<lparr> channelData = [0], bufferSampleRate = 4 \<rparr>", OF h1 h2 h3 h4]
  show ?thesis
    apply (elim exE conjE)
    subgoal for s1 s2 s3
      apply (rule exI [of _ s1], rule exI [of _ s2], rule exI [of _ s3])
      apply (simp add: duration_def c)
      done
    done
qed

section \<open>Interruption\<close>

lemmas sample_defs = liveSession_def grantingBrowser_def denyingBrowser_def mounted_def
  startSession_def startFailed_def connectResolved_def connectRejected_def onopen_def
  consoleLog_def consoleError_def Let_def

lemmas message_defs = onmessage_def handleAudioOutput_def base64Audio_def sampleMessage_def
  decodeAndSchedule_def sampleUtils_def schedulePlayback_def sourceStart_def isInterrupted_def
  setAdd_def

lemma liveSession_facts:
  "status liveSession = Connected" "isActive liveSession"
  "inputContextRef liveSession = Some 0" "outputContextRef liveSession = Some 1"
  "streamRef liveSession = Some 0" "sourceRef liveSession = Some 0"
  "processorRef liveSession = Some 1" "sessionRef liveSession = Some 0"
  "streams liveSession 0 = [Live]" "nextStartTimeRef liveSession = 0"
  "scheduledSourcesRef liveSession = []" "sourceCount liveSession = 0"
  "console liveSession = [ConsoleLog ''Live session opened'']"
  by (simp_all add: sample_defs)

lemma playingSession_facts:
  "status playingSession = Connected" "isActive playingSession"
  "outputContextRef playingSession = Some 1"
  "scheduledSourcesRef playingSession = [0]" "sourceCount playingSession = 1"
  "nextStartTimeRef playingSession = 3 + 1 / 12000"
  "startedAt (sources playingSession 0) = Some 3" "\<not> stopped (sources playingSession 0)"
  "console playingSession = [ConsoleLog ''Live session opened'']"
  by (simp_all add: playingSession_def sample_defs message_defs duration_def)

text \<open>
  Claim C2. Handling an interruption, in any state and also before any audio was ever
  enqueued, stops every source of the set of scheduled sources (a stop that throws
  because the source was already stopped is swallowed), leaves the set empty and resets
  the cursor to zero; the next enqueue then starts at the current reading of the output
  clock, not at the cursor from before the interruption.
\<close>

theorem C2_interrupt:
  "scheduledSourcesRef (handleInterruption s) = []
   \<and> nextStartTimeRef (handleInterruption s) = 0
   \<and> (\<forall>h \<in> set (scheduledSourcesRef s). stopped (sources (handleInterruption s) h))
   \<and> handleInterruption mounted = mounted
   \<and> (isInterrupted m \<and> base64Audio m = None \<and> outputContextRef s \<noteq> None \<longrightarrow>
        onmessage utils currentTime m s = handleInterruption (consoleLog ''Interrupted!'' s))
   \<and> (0 \<le> currentTime \<longrightarrow>
        (\<exists>s'. schedulePlayback currentTime b (handleInterruption s) = Returned s'
            \<and> startedAt (sources s' (sourceCount s)) = Some currentTime
            \<and> sourceCount s \<in> set (scheduledSourcesRef s')))"
proof (intro conjI)
  show "scheduledSourcesRef (handleInterruption s) = []"
    by (simp add: handleInterruption_def)
  show "nextStartTimeRef (handleInterruption s) = 0"
    by (simp add: handleInterruption_def)
  show "\<forall>h \<in> set (scheduledSourcesRef s). stopped (sources (handleInterruption s) h)"
    by (simp add: handleInterruption_def stopAll_stopped)
  show "handleInterruption mounted = mounted"
    by (simp add: handleInterruption_def mounted_def)
  show "isInterrupted m \<and> base64Audio m = None \<and> outputContextRef s \<noteq> None \<longrightarrow>
        onmessage utils currentTime m s = handleInterruption (consoleLog ''Interrupted!'' s)"
    by (auto simp: onmessage_def handleAudioOutput_def)
  show "0 \<le> currentTime \<longrightarrow>
        (\<exists>s'. schedulePlayback currentTime b (handleInterruption s) = Returned s'
            \<and> startedAt (sources s' (sourceCount s)) = Some currentTime
            \<and> sourceCount s \<in> set (scheduledSourcesRef s'))"
  proof
    assume now: "0 \<le> currentTime"
    have n: "nextStartTimeRef (handleInterruption s) = 0"
      and c: "sourceCount (handleInterruption s) = sourceCount s"
      by (simp_all add: handleInterruption_def)
    have p: "0 \<le> max currentTime (nextStartTimeRef (handleInterruption s))"
      using now n by simp
    show "\<exists>s'. schedulePlayback currentTime b (handleInterruption s) = Returned s'
            \<and> startedAt (sources s' (sourceCount s)) = Some currentTime
            \<and> sourceCount s \<in> set (scheduledSourcesRef s')"
      using now n c by (simp add: schedulePlayback_ok [OF p] setAdd_def)
  qed
qed

theorem C2_interrupt_witness:
  "scheduledSourcesRef playingSession = [0]
   \<and> nextStartTimeRef playingSession = 3 + 1 / 12000
   \<and> scheduledSourcesRef (handleInterruption playingSession) = []
   \<and> nextStartTimeRef (handleInterruption playingSession) = 0
   \<and> stopped (sources (handleInterruption playingSession) 0)
   \<and> onmessage sampleUtils 2 (sampleMessage None True) playingSession
        = handleInterruption (consoleLog ''Interrupted!'' playingSession)
   \<and> (\<exists>s'. schedulePlayback 2 \<lparr> channelData = [0, 0], bufferSampleRate = 4 \<rparr>
               (handleInterruption playingSession) = Returned s'
          \<and> startedAt (sources s' 1) = Some 2
          \<and> 1 \<in> set (scheduledSourcesRef s'))"
proof -
  have m: "isInterrupted (sampleMessage None True)" "base64Audio (sampleMessage None True) = None"
    by (simp_all add: isInterrupted_def base64Audio_def sampleMessage_def)
  show ?thesis
    using C2_interrupt [of playingSession "sampleMessage None True" sampleUtils 2
        "\<lparr> channelData = [0, 0], bufferSampleRate = 4 \<rparr>"] m playingSession_facts
    by simp
qed

section \<open>Handling inbound messages\<close>

lemma handleAudioOutput_none:
  "base64Audio m = None \<Longrightarrow> handleAudioOutput utils now m s = s"
  by (simp add: handleAudioOutput_def)

lemma base64Audio_withoutAudio: "base64Audio (withoutAudio m) = None"
  by (simp add: base64Audio_def withoutAudio_def split: option.splits)

lemma isInterrupted_withoutAudio: "isInterrupted (withoutAudio m) = isInterrupted m"
  by (auto simp: isInterrupted_def withoutAudio_def split: option.splits)

lemma onmessage_live:
  "outputContextRef s = Some c \<Longrightarrow>
   onmessage utils now m s =
     (if isInterrupted m
      then handleInterruption (consoleLog ''Interrupted!'' (handleAudioOutput utils now m s))
      else handleAudioOutput utils now m s)"
  by (simp add: onmessage_def Let_def)

lemma onmessage_released: "outputContextRef s = None \<Longrightarrow> onmessage utils now m s = s"
  by (simp add: onmessage_def)

text \<open>What scheduling a buffer does in either outcome.\<close>

lemma schedulePlayback_thrown:
  assumes "max now (nextStartTimeRef s) < 0"
  shows "schedulePlayback now b s =
     Threw RangeError (s\<lparr> sources := (sources s)(sourceCount s :=
                     \<lparr> buffer = Some b, toDestination = True, startedAt = None, stopped = False \<rparr>),
                  sourceCount := Suc (sourceCount s),
                  nextStartTimeRef := max now (nextStartTimeRef s) \<rparr>)"
  using assms by (auto simp: schedulePlayback_def sourceStart_def Let_def max_def)

lemma handleAudioOutput_decoded:
  assumes "decodedChunk utils m = Some b"
  shows "handleAudioOutput utils now m s =
     (case schedulePlayback now b s of Returned s' \<Rightarrow> s'
      | Threw e s' \<Rightarrow> consoleError ''Error decoding audio'' s')"
  using assms
  by (auto simp: handleAudioOutput_def decodedChunk_def decodeAndSchedule_def
      split: option.splits sum.splits if_splits)

lemma handleAudioOutput_failed:
  assumes "base64Audio m = Some b64" "b64 \<noteq> []" "decodedChunk utils m = None"
  shows "handleAudioOutput utils now m s = consoleError ''Error decoding audio'' s"
  using assms
  by (auto simp: handleAudioOutput_def decodedChunk_def decodeAndSchedule_def
      split: option.splits sum.splits if_splits)

lemma handleAudioOutput_skipped:
  assumes "base64Audio m = None \<or> base64Audio m = Some []"
  shows "handleAudioOutput utils now m s = s"
  using assms by (auto simp: handleAudioOutput_def)

lemma handleAudioOutput_cases:
  obtains (skipped) "decodedChunk utils m = None" "handleAudioOutput utils now m s = s"
  | (failed) "decodedChunk utils m = None"
      "handleAudioOutput utils now m s = consoleError ''Error decoding audio'' s"
  | (played) b where "decodedChunk utils m = Some b" "0 \<le> max now (nextStartTimeRef s)"
      "handleAudioOutput utils now m s =
         s\<lparr> sources := (sources s)(sourceCount s :=
                     \<lparr> buffer = Some b, toDestination = True,
                       startedAt = Some (max now (nextStartTimeRef s)), stopped = False \<rparr>),
                  sourceCount := Suc (sourceCount s),
                  nextStartTimeRef := max now (nextStartTimeRef s) + duration b,
                  scheduledSourcesRef := setAdd (sourceCount s) (scheduledSourcesRef s) \<rparr>"
  | (thrown) b where "decodedChunk utils m = Some b" "max now (nextStartTimeRef s) < 0"
      "handleAudioOutput utils now m s =
         consoleError ''Error decoding audio''
           (s\<lparr> sources := (sources s)(sourceCount s :=
                     \<lparr> buffer = Some b, toDestination = True, startedAt = None, stopped = False \<rparr>),
                  sourceCount := Suc (sourceCount s),
                  nextStartTimeRef := max now (nextStartTimeRef s) \<rparr>)"
proof (cases "decodedChunk utils m")
  case None
  show ?thesis
  proof (cases "base64Audio m = None \<or> base64Audio m = Some []")
    case True
    then show ?thesis using None skipped handleAudioOutput_skipped by blast
  next
    case False
    then obtain b64 where "base64Audio m = Some b64" "b64 \<noteq> []" by auto
    then show ?thesis using None failed handleAudioOutput_failed by blast
  qed
next
  case (Some b)
  show ?thesis
  proof (cases "0 \<le> max now (nextStartTimeRef s)")
    case True
    then show ?thesis
      using Some played [of b] by (simp add: handleAudioOutput_decoded schedulePlayback_ok)
  next
    case False
    then have neg: "max now (nextStartTimeRef s) < 0" by linarith
    show ?thesis
      using Some thrown [of b] neg
      by (simp add: handleAudioOutput_decoded schedulePlayback_thrown [OF neg])
  qed
qed

lemma handleAudioOutput_frame:
  "outputContextRef (handleAudioOutput utils now m s) = outputContextRef s
   \<and> status (handleAudioOutput utils now m s) = status s
   \<and> isActive (handleAudioOutput utils now m s) = isActive s"
  by (cases rule: handleAudioOutput_cases [of utils m now s])
     (simp_all add: consoleError_def)

lemma handleAudioOutput_sourceCount:
  "sourceCount (handleAudioOutput utils now m s) =
     (case decodedChunk utils m of None \<Rightarrow> sourceCount s | Some b \<Rightarrow> Suc (sourceCount s))"
  by (cases rule: handleAudioOutput_cases [of utils m now s])
     (simp_all add: consoleError_def)

lemma handleAudioOutput_buffer_old:
  "h < sourceCount s \<Longrightarrow> buffer (sources (handleAudioOutput utils now m s) h) = buffer (sources s h)"
  by (cases rule: handleAudioOutput_cases [of utils m now s])
     (simp_all add: consoleError_def)

lemma handleAudioOutput_buffer_new:
  "decodedChunk utils m = Some b \<Longrightarrow>
   buffer (sources (handleAudioOutput utils now m s) (sourceCount s)) = Some b"
  by (cases rule: handleAudioOutput_cases [of utils m now s])
     (simp_all add: consoleError_def)

lemma handleInterruption_frame:
  "outputContextRef (handleInterruption s) = outputContextRef s
   \<and> status (handleInterruption s) = status s
   \<and> isActive (handleInterruption s) = isActive s
   \<and> sourceCount (handleInterruption s) = sourceCount s
   \<and> buffer (sources (handleInterruption s) h) = buffer (sources s h)"
  by (simp add: handleInterruption_def stopAll_fields)

lemma onmessage_frame:
  "outputContextRef (onmessage utils now m s) = outputContextRef s
   \<and> status (onmessage utils now m s) = status s
   \<and> isActive (onmessage utils now m s) = isActive s"
  by (cases "outputContextRef s")
     (simp_all add: onmessage_released onmessage_live handleInterruption_frame
        handleAudioOutput_frame consoleLog_def)

lemma onmessage_sourceCount:
  "outputContextRef s = Some c \<Longrightarrow>
   sourceCount (onmessage utils now m s) =
     (case decodedChunk utils m of None \<Rightarrow> sourceCount s | Some b \<Rightarrow> Suc (sourceCount s))"
  by (simp add: onmessage_live handleInterruption_frame handleAudioOutput_sourceCount consoleLog_def)

lemma onmessage_buffer_old:
  "h < sourceCount s \<Longrightarrow> buffer (sources (onmessage utils now m s) h) = buffer (sources s h)"
  by (cases "outputContextRef s")
     (simp_all add: onmessage_released onmessage_live handleInterruption_frame
        handleAudioOutput_buffer_old consoleLog_def)

lemma onmessage_buffer_new:
  "outputContextRef s = Some c \<Longrightarrow> decodedChunk utils m = Some b \<Longrightarrow>
   buffer (sources (onmessage utils now m s) (sourceCount s)) = Some b"
  by (simp add: onmessage_live handleInterruption_frame handleAudioOutput_buffer_new consoleLog_def)




text \<open>
  Claim C7. When the payload of a message does not decode (the decoding throws), the
  error is logged, one entry at the end of the console, and the chunk is dropped: the
  message is handled as the same message without its audio would be, on the state with
  the log entry added. Without the interruption flag nothing but the log changes. In
  every case the status stays what it was (Connected stays Connected) and no source is
  created. The same holds of the two halves of the callback: a payload that
  \<^verbatim>\<open>base64ToUint8Array\<close> refuses ends the callback before any \<^verbatim>\<open>await\<close>, and a decode
  that rejects is logged in the state that the callback finds then.
\<close>

theorem C7_bad_chunk_dropped:
  assumes live: "outputContextRef s = Some c"
    and audio: "base64Audio m = Some b64" "b64 \<noteq> []"
    and raises: "base64ToUint8Array utils b64 = Inl e
       \<or> (\<exists>uint8. base64ToUint8Array utils b64 = Inr uint8
              \<and> decodeAudioData utils uint8 24000 1 = Inl e)"
  shows "handleAudioOutput utils currentTime m s = consoleError ''Error decoding audio'' s
     \<and> console (handleAudioOutput utils currentTime m s)
         = console s @ [ConsoleError ''Error decoding audio'']
     \<and> onmessage utils currentTime m s =
         onmessage utils currentTime (withoutAudio m) (consoleError ''Error decoding audio'' s)
     \<and> console (onmessage utils currentTime m s)
         = console s @ [ConsoleError ''Error decoding audio'']
             @ (if isInterrupted m then [ConsoleLog ''Interrupted!''] else [])
     \<and> (\<not> isInterrupted m \<longrightarrow>
           onmessage utils currentTime m s = consoleError ''Error decoding audio'' s)
     \<and> status (onmessage utils currentTime m s) = status s
     \<and> isActive (onmessage utils currentTime m s) = isActive s
     \<and> sourceCount (onmessage utils currentTime m s) = sourceCount s
     \<and> (base64ToUint8Array utils b64 = Inl e \<longrightarrow>
           onmessageBegin utils m s = (onmessage utils currentTime m s, None))
     \<and> ((\<exists>uint8. base64ToUint8Array utils b64 = Inr uint8
              \<and> decodeAudioData utils uint8 24000 1 = Inl e) \<longrightarrow>
           onmessageBegin utils m s
             = (s, Some \<lparr> awaited = Inl e, flagged = isInterrupted m \<rparr>))
     \<and> onmessageResume currentTime \<lparr> awaited = Inl e, flagged = isInterrupted m \<rparr> s'
         = interruptionTail (isInterrupted m) (consoleError ''Error decoding audio'' s')
     \<and> console (onmessageResume currentTime \<lparr> awaited = Inl e, flagged = isInterrupted m \<rparr> s')
         = console s' @ [ConsoleError ''Error decoding audio'']
             @ (if isInterrupted m then [ConsoleLog ''Interrupted!''] else [])
     \<and> status (onmessageResume currentTime \<lparr> awaited = Inl e, flagged = isInterrupted m \<rparr> s')
         = status s'
     \<and> sourceCount (onmessageResume currentTime \<lparr> awaited = Inl e, flagged = isInterrupted m \<rparr> s')
         = sourceCount s'"
proof -
  have none: "decodedChunk utils m = None"
    using audio raises by (auto simp: decodedChunk_def)
  have a: "handleAudioOutput utils currentTime m s = consoleError ''Error decoding audio'' s"
    using audio none by (rule handleAudioOutput_failed)
  have a': "console (handleAudioOutput utils currentTime m s)
         = console s @ [ConsoleError ''Error decoding audio'']"
    unfolding a by (simp add: consoleError_def)
  have live': "outputContextRef (consoleError ''Error decoding audio'' s) = Some c"
    using live by (simp add: consoleError_def)
  have b: "onmessage utils currentTime m s =
         onmessage utils currentTime (withoutAudio m) (consoleError ''Error decoding audio'' s)"
    by (simp add: onmessage_live [OF live] onmessage_live [OF live'] a
        isInterrupted_withoutAudio handleAudioOutput_none base64Audio_withoutAudio)
  have b': "console (onmessage utils currentTime m s)
         = console s @ [ConsoleError ''Error decoding audio'']
             @ (if isInterrupted m then [ConsoleLog ''Interrupted!''] else [])"
    by (simp add: onmessage_live [OF live] a handleInterruption_def consoleLog_def consoleError_def)
  have c: "\<not> isInterrupted m \<longrightarrow>
           onmessage utils currentTime m s = consoleError ''Error decoding audio'' s"
    by (simp add: onmessage_live [OF live] a)
  have d: "sourceCount (onmessage utils currentTime m s) = sourceCount s"
    using none by (simp add: onmessage_sourceCount [OF live])
  have f: "status (onmessage utils currentTime m s) = status s"
    "isActive (onmessage utils currentTime m s) = isActive s"
    using onmessage_frame [of utils currentTime m s] by simp_all
  have g: "base64ToUint8Array utils b64 = Inl e \<longrightarrow>
           onmessageBegin utils m s = (onmessage utils currentTime m s, None)"
    using live audio
    by (simp add: onmessageBegin_def onmessage_live [OF live] a interruptionTail_def)
  have h: "(\<exists>uint8. base64ToUint8Array utils b64 = Inr uint8
              \<and> decodeAudioData utils uint8 24000 1 = Inl e) \<longrightarrow>
           onmessageBegin utils m s
             = (s, Some \<lparr> awaited = Inl e, flagged = isInterrupted m \<rparr>)"
    using live audio by (auto simp: onmessageBegin_def)
  have i: "onmessageResume currentTime \<lparr> awaited = Inl e, flagged = isInterrupted m \<rparr> s'
         = interruptionTail (isInterrupted m) (consoleError ''Error decoding audio'' s')"
    by (simp add: onmessageResume_def)
  have j: "console (onmessageResume currentTime \<lparr> awaited = Inl e, flagged = isInterrupted m \<rparr> s')
         = console s' @ [ConsoleError ''Error decoding audio'']
             @ (if isInterrupted m then [ConsoleLog ''Interrupted!''] else [])"
    and k: "status (onmessageResume currentTime \<lparr> awaited = Inl e, flagged = isInterrupted m \<rparr> s')
         = status s'"
    and l: "sourceCount (onmessageResume currentTime \<lparr> awaited = Inl e, flagged = isInterrupted m \<rparr> s')
         = sourceCount s'"
    unfolding i
    by (simp_all add: interruptionTail_def handleInterruption_def consoleLog_def consoleError_def)
  show ?thesis using a a' b b' c f d g h i j k l by (intro conjI)
qed

theorem C7_bad_chunk_dropped_witness:
  "outputContextRef playingSession = Some 1
   \<and> base64Audio (sampleMessage (Some ''!'') False) = Some ''!''
   \<and> base64ToUint8Array sampleUtils ''!'' = Inl DecodeError
   \<and> onmessage sampleUtils 4 (sampleMessage (Some ''!'') False) playingSession
        = consoleError ''Error decoding audio'' playingSession
   \<and> console (onmessage sampleUtils 4 (sampleMessage (Some ''!'') False) playingSession)
        = [ConsoleLog ''Live session opened'', ConsoleError ''Error decoding audio'']
   \<and> status (onmessage sampleUtils 4 (sampleMessage (Some ''!'') False) playingSession) = Connected
   \<and> sourceCount (onmessage sampleUtils 4 (sampleMessage (Some ''!'') False) playingSession) = 1
   \<and> onmessageBegin sampleUtils (sampleMessage (Some ''!'') False) playingSession
        = (onmessage sampleUtils 4 (sampleMessage (Some ''!'') False) playingSession, None)"
proof -
  have a: "base64Audio (sampleMessage (Some ''!'') False) = Some ''!''"
    and n: "''!'' \<noteq> []"
    and f: "\<not> isInterrupted (sampleMessage (Some ''!'') False)"
    by (simp_all add: isInterrupted_def base64Audio_def sampleMessage_def)
  have r: "base64ToUint8Array sampleUtils ''!'' = Inl DecodeError"
    by (simp add: sampleUtils_def)
  then have r': "base64ToUint8Array sampleUtils ''!'' = Inl DecodeError
       \<or> (\<exists>uint8. base64ToUint8Array sampleUtils ''!'' = Inr uint8
              \<and> decodeAudioData sampleUtils uint8 24000 1 = Inl DecodeError)"
    by simp
  note inst = C7_bad_chunk_dropped [OF playingSession_facts(3) a n r', of 4]
  from inst f have e: "onmessage sampleUtils 4 (sampleMessage (Some ''!'') False) playingSession
        = consoleError ''Error decoding audio'' playingSession"
    by blast
  from inst have "console (onmessage sampleUtils 4 (sampleMessage (Some ''!'') False) playingSession)
         = console playingSession @ [ConsoleError ''Error decoding audio'']
             @ (if isInterrupted (sampleMessage (Some ''!'') False)
                then [ConsoleLog ''Interrupted!''] else [])"
    by blast
  then have l: "console (onmessage sampleUtils 4 (sampleMessage (Some ''!'') False) playingSession)
        = [ConsoleLog ''Live session opened'', ConsoleError ''Error decoding audio'']"
    using f by (simp add: playingSession_facts)
  from inst have "status (onmessage sampleUtils 4 (sampleMessage (Some ''!'') False) playingSession)
        = status playingSession"
    and "sourceCount (onmessage sampleUtils 4 (sampleMessage (Some ''!'') False) playingSession)
        = sourceCount playingSession"
    by blast+
  then have s: "status (onmessage sampleUtils 4 (sampleMessage (Some ''!'') False) playingSession) = Connected"
    and c: "sourceCount (onmessage sampleUtils 4 (sampleMessage (Some ''!'') False) playingSession) = 1"
    by (simp_all only: playingSession_facts)
  from inst r have b: "onmessageBegin sampleUtils (sampleMessage (Some ''!'') False) playingSession
        = (onmessage sampleUtils 4 (sampleMessage (Some ''!'') False) playingSession, None)"
    by blast
  show ?thesis
    using playingSession_facts(3) a r e l s c b by (intro conjI)
qed

lemma playedInOrder_cursor:
  assumes "playedInOrder k s" "k \<le> h" "h < sourceCount s" "endsAt (sources s h) = Some e"
  shows "e \<le> nextStartTimeRef s"
proof -
  have "h \<in> set [k ..< sourceCount s]" using assms(2,3) by simp
  with assms(1) have "case endsAt (sources s h) of None \<Rightarrow> True
      | Some e \<Rightarrow> e \<le> nextStartTimeRef s
          \<and> (\<forall>h' \<in> set [Suc h ..< sourceCount s].
                (case startedAt (sources s h') of None \<Rightarrow> True | Some t' \<Rightarrow> e \<le> t'))"
    unfolding playedInOrder_def by (rule bspec)
  then show ?thesis using assms(4) by simp
qed

lemma playedInOrder_later:
  assumes "playedInOrder k s" "k \<le> h" "h < h'" "h' < sourceCount s"
    "endsAt (sources s h) = Some e" "startedAt (sources s h') = Some t'"
  shows "e \<le> t'"
proof -
  have "h \<in> set [k ..< sourceCount s]" using assms(2,3,4) by simp
  with assms(1) have "case endsAt (sources s h) of None \<Rightarrow> True
      | Some e \<Rightarrow> e \<le> nextStartTimeRef s
          \<and> (\<forall>h' \<in> set [Suc h ..< sourceCount s].
                (case startedAt (sources s h') of None \<Rightarrow> True | Some t' \<Rightarrow> e \<le> t'))"
    unfolding playedInOrder_def by (rule bspec)
  then have all: "\<forall>h' \<in> set [Suc h ..< sourceCount s].
                (case startedAt (sources s h') of None \<Rightarrow> True | Some t' \<Rightarrow> e \<le> t')"
    using assms(5) by simp
  have "h' \<in> set [Suc h ..< sourceCount s]" using assms(3,4) by simp
  with all have "case startedAt (sources s h') of None \<Rightarrow> True | Some t' \<Rightarrow> e \<le> t'"
    by (rule bspec)
  then show ?thesis using assms(6) by simp
qed

lemma playedInOrderI:
  assumes cur: "\<And>h e. k \<le> h \<Longrightarrow> h < sourceCount s \<Longrightarrow> endsAt (sources s h) = Some e
                  \<Longrightarrow> e \<le> nextStartTimeRef s"
    and later: "\<And>h h' e t'. k \<le> h \<Longrightarrow> h < h' \<Longrightarrow> h' < sourceCount s
                  \<Longrightarrow> endsAt (sources s h) = Some e \<Longrightarrow> startedAt (sources s h') = Some t'
                  \<Longrightarrow> e \<le> t'"
  shows "playedInOrder k s"
  unfolding playedInOrder_def
proof (rule ballI)
  fix h assume "h \<in> set [k ..< sourceCount s]"
  then have h: "k \<le> h" "h < sourceCount s" by simp_all
  show "case endsAt (sources s h) of None \<Rightarrow> True
      | Some e \<Rightarrow> e \<le> nextStartTimeRef s
          \<and> (\<forall>h' \<in> set [Suc h ..< sourceCount s].
                (case startedAt (sources s h') of None \<Rightarrow> True | Some t' \<Rightarrow> e \<le> t'))"
  proof (cases "endsAt (sources s h)")
    case None
    then show ?thesis by simp
  next
    case (Some e)
    have "\<forall>h' \<in> set [Suc h ..< sourceCount s].
                (case startedAt (sources s h') of None \<Rightarrow> True | Some t' \<Rightarrow> e \<le> t')"
    proof (rule ballI)
      fix h' assume "h' \<in> set [Suc h ..< sourceCount s]"
      then have h': "h < h'" "h' < sourceCount s" by simp_all
      show "case startedAt (sources s h') of None \<Rightarrow> True | Some t' \<Rightarrow> e \<le> t'"
        using later [OF h(1) h' Some] by (simp split: option.splits)
    qed
    then show ?thesis using Some cur [OF h Some] by simp
  qed
qed


lemma playedInOrder_console:
  "playedInOrder k (s\<lparr> console := c \<rparr>) = playedInOrder k s"
  by (simp add: playedInOrder_def cong: option.case_cong)

lemma playedInOrder_grow:
  assumes inv: "playedInOrder k s"
    and count: "sourceCount s' = Suc (sourceCount s)"
    and old: "\<And>h. h \<noteq> sourceCount s \<Longrightarrow> sources s' h = sources s h"
    and cursor: "nextStartTimeRef s \<le> nextStartTimeRef s'"
    and new_start: "\<And>t. startedAt (sources s' (sourceCount s)) = Some t \<Longrightarrow> nextStartTimeRef s \<le> t"
    and new_end: "\<And>e. endsAt (sources s' (sourceCount s)) = Some e \<Longrightarrow> e \<le> nextStartTimeRef s'"
  shows "playedInOrder k s'"
proof (rule playedInOrderI)
  fix h e
  assume a: "k \<le> h" "h < sourceCount s'" "endsAt (sources s' h) = Some e"
  show "e \<le> nextStartTimeRef s'"
  proof (cases "h = sourceCount s")
    case True
    then show ?thesis using a(3) new_end by simp
  next
    case False
    then have "h < sourceCount s" "endsAt (sources s h) = Some e"
      using a count old by simp_all
    then have "e \<le> nextStartTimeRef s"
      using playedInOrder_cursor [OF inv a(1)] by simp
    then show ?thesis using cursor by simp
  qed
next
  fix h h' e t'
  assume a: "k \<le> h" "h < h'" "h' < sourceCount s'"
    "endsAt (sources s' h) = Some e" "startedAt (sources s' h') = Some t'"
  have h: "h < sourceCount s" using a(2,3) count by simp
  then have e: "endsAt (sources s h) = Some e" using a(4) old by simp
  show "e \<le> t'"
  proof (cases "h' = sourceCount s")
    case True
    have "e \<le> nextStartTimeRef s"
      using playedInOrder_cursor [OF inv a(1) h e] .
    moreover have "nextStartTimeRef s \<le> t'" using True a(5) new_start by simp
    ultimately show ?thesis by simp
  next
    case False
    then have "h' < sourceCount s" "startedAt (sources s h') = Some t'"
      using a(3,5) count old by simp_all
    then show ?thesis using playedInOrder_later [OF inv a(1) a(2) _ e] by simp
  qed
qed

lemma playedInOrder_handleAudioOutput:
  assumes inv: "playedInOrder k s"
  shows "playedInOrder k (handleAudioOutput utils now m s)"
proof (cases rule: handleAudioOutput_cases [of utils m now s])
  case skipped
  then show ?thesis using inv by simp
next
  case failed
  then show ?thesis using inv by (simp add: consoleError_def playedInOrder_console)
next
  case (played b)
  show ?thesis
    unfolding played(3)
    by (rule playedInOrder_grow [OF inv])
       (simp_all add: endsAt_def duration_nonneg add_increasing2)
next
  case (thrown b)
  show ?thesis
    unfolding thrown(3)
    by (rule playedInOrder_grow [OF inv]) (simp_all add: endsAt_def consoleError_def)
qed

section \<open>The callback around its await\<close>


lemma onmessage_halves:
  "onmessage utils now m s =
     (case onmessageBegin utils m s of
        (s', None) \<Rightarrow> s'
      | (s', Some h) \<Rightarrow> onmessageResume now h s')"
  by (simp add: onmessage_def onmessageBegin_def onmessageResume_def interruptionTail_def
      handleAudioOutput_def decodeAndSchedule_def Let_def
      split: option.splits sum.splits outcome.splits)
























section \<open>Teardown\<close>

lemmas teardown_defs = stopSession_def closeApiSession_def stopMicrophoneStream_def
  disconnectSource_def disconnectProcessor_def closeInputContext_def stopOutputAudio_def
  closeOutputContext_def resetState_def




lemma stopTracks_quiet:
  "\<forall>i < length ts. \<not> raises (TrackStop (k + i)) \<Longrightarrow>
   stopTracks raises k ts = (None, replicate (length ts) Ended)"
proof (induction ts arbitrary: k)
  case Nil
  then show ?case by simp
next
  case (Cons t ts)
  have head: "\<not> raises (TrackStop k)" using Cons.prems by force
  have "\<forall>i < length ts. \<not> raises (TrackStop (Suc k + i))"
  proof (intro allI impI)
    fix i assume "i < length ts"
    then have "Suc i < length (t # ts)" by simp
    with Cons.prems have "\<not> raises (TrackStop (k + Suc i))" by blast
    then show "\<not> raises (TrackStop (Suc k + i))" by simp
  qed
  then show ?case using head Cons.IH [of "Suc k"] by simp
qed

lemma quiet_tracks:
  assumes "\<forall>op \<in> set (unguardedCalls s). \<not> raises op" "streamRef s = Some st"
  shows "stopTracks raises 0 (streams s st) = (None, replicate (length (streams s st)) Ended)"
proof (rule stopTracks_quiet)
  show "\<forall>i < length (streams s st). \<not> raises (TrackStop (0 + i))"
    using assms by (auto simp: unguardedCalls_def)
qed

lemma stopSession_quiet:
  assumes quiet: "\<forall>op \<in> set (unguardedCalls s). \<not> raises op"
  shows "stopSession raises s = Returned (tornDown raises s)"
proof -
  have tr: "\<And>st. streamRef s = Some st \<Longrightarrow>
      stopTracks raises 0 (streams s st) = (None, replicate (length (streams s st)) Ended)"
    using quiet by (rule quiet_tracks)
  have q: "sourceRef s \<noteq> None \<Longrightarrow> \<not> raises SourceDisconnect"
    "processorRef s \<noteq> None \<Longrightarrow> \<not> raises ProcessorDisconnect"
    "inputContextRef s \<noteq> None \<Longrightarrow> \<not> raises InputContextClose"
    "outputContextRef s \<noteq> None \<Longrightarrow> \<not> raises OutputContextClose"
    using quiet by (auto simp: unguardedCalls_def)
  show ?thesis
    using tr q
    by (cases "sessionRef s"; cases "streamRef s"; cases "sourceRef s"; cases "processorRef s";
        cases "inputContextRef s"; cases "outputContextRef s")
       (simp_all add: teardown_defs tornDown_def consoleError_def Let_def)
qed

lemma tornDown_torn: "torn (tornDown raises s)"
  by (simp add: torn_def tornDown_def)


lemma tornDown_console:
  "console (tornDown raises s) =
     (case sessionRef s of
        None \<Rightarrow> console s
      | Some k \<Rightarrow> if raises SessionClose
                  then console s @ [ConsoleError ''Error closing session'']
                  else console s)"
  by (simp add: tornDown_def)

lemma tornDown_session:
  "sessionRef s = Some k \<Longrightarrow> \<not> raises SessionClose \<Longrightarrow>
   sessionClosed (sessions (tornDown raises s) k)"
  by (simp add: tornDown_def)

lemma tornDown_stream:
  "streamRef s = Some st \<Longrightarrow>
   streams (tornDown raises s) st = replicate (length (streams s st)) Ended"
  by (simp add: tornDown_def)

lemma tornDown_nodes:
  "sourceRef s = Some n \<or> processorRef s = Some n \<Longrightarrow>
   \<not> nodeConnected (nodes (tornDown raises s) n)"
  by (auto simp: tornDown_def Let_def split: option.splits)

lemma tornDown_contexts:
  "inputContextRef s = Some c \<or> outputContextRef s = Some c \<Longrightarrow>
   ctxClosed (contexts (tornDown raises s) c)"
  by (auto simp: tornDown_def Let_def split: option.splits)

lemma tornDown_sources:
  "h \<in> set (scheduledSourcesRef s) \<Longrightarrow> stopped (sources (tornDown raises s) h)"
  by (simp add: tornDown_def stopAll_stopped)

text \<open>
  Claim C5, as the code has it. When none of the release calls outside a \<^verbatim>\<open>try\<close>
  throws, the teardown runs through: the close of the remote session may throw, which is
  logged, and the stop of a scheduled source may throw, which is swallowed without a log
  entry; in both cases every later step runs, every ref is cleared and every object the
  refs held is released (tracks ended, nodes disconnected, contexts closed, sources
  stopped).
\<close>

theorem C5_teardown_runs_through:
  assumes quiet: "\<forall>call \<in> set (unguardedCalls s). \<not> raises call"
  shows "\<exists>s'. stopSession raises s = Returned s'
     \<and> torn s'
     \<and> (\<forall>k. sessionRef s = Some k \<longrightarrow>
           (if raises SessionClose
            then console s' = console s @ [ConsoleError ''Error closing session'']
            else sessionClosed (sessions s' k) \<and> console s' = console s))
     \<and> (sessionRef s = None \<longrightarrow> console s' = console s)
     \<and> (\<forall>st. streamRef s = Some st \<longrightarrow> streams s' st = replicate (length (streams s st)) Ended)
     \<and> (\<forall>n. sourceRef s = Some n \<longrightarrow> \<not> nodeConnected (nodes s' n))
     \<and> (\<forall>n. processorRef s = Some n \<longrightarrow> \<not> nodeConnected (nodes s' n))
     \<and> (\<forall>c. inputContextRef s = Some c \<longrightarrow> ctxClosed (contexts s' c))
     \<and> (\<forall>c. outputContextRef s = Some c \<longrightarrow> ctxClosed (contexts s' c))
     \<and> (\<forall>h \<in> set (scheduledSourcesRef s). stopped (sources s' h))"
proof (intro exI conjI)
  show "stopSession raises s = Returned (tornDown raises s)"
    using quiet by (rule stopSession_quiet)
  show "torn (tornDown raises s)" by (rule tornDown_torn)
  show "\<forall>k. sessionRef s = Some k \<longrightarrow>
           (if raises SessionClose
            then console (tornDown raises s) = console s @ [ConsoleError ''Error closing session'']
            else sessionClosed (sessions (tornDown raises s) k) \<and> console (tornDown raises s) = console s)"
    by (simp add: tornDown_console tornDown_session)
  show "sessionRef s = None \<longrightarrow> console (tornDown raises s) = console s"
    by (simp add: tornDown_console)
  show "\<forall>st. streamRef s = Some st \<longrightarrow>
          streams (tornDown raises s) st = replicate (length (streams s st)) Ended"
    by (simp add: tornDown_stream)
  show "\<forall>n. sourceRef s = Some n \<longrightarrow> \<not> nodeConnected (nodes (tornDown raises s) n)"
    by (simp add: tornDown_nodes)
  show "\<forall>n. processorRef s = Some n \<longrightarrow> \<not> nodeConnected (nodes (tornDown raises s) n)"
    by (simp add: tornDown_nodes)
  show "\<forall>c. inputContextRef s = Some c \<longrightarrow> ctxClosed (contexts (tornDown raises s) c)"
    by (simp add: tornDown_contexts)
  show "\<forall>c. outputContextRef s = Some c \<longrightarrow> ctxClosed (contexts (tornDown raises s) c)"
    by (simp add: tornDown_contexts)
  show "\<forall>h \<in> set (scheduledSourcesRef s). stopped (sources (tornDown raises s) h)"
    by (simp add: tornDown_sources)
qed

lemma haltedSession_facts:
  "status haltedSession = Connected" "isActive haltedSession"
  "inputContextRef haltedSession = Some 0" "outputContextRef haltedSession = Some 1"
  "streamRef haltedSession = Some 0" "sourceRef haltedSession = Some 0"
  "processorRef haltedSession = Some 1" "sessionRef haltedSession = Some 0"
  "streams haltedSession 0 = [Live]"
  "scheduledSourcesRef haltedSession = [0]" "stopped (sources haltedSession 0)"
  "console haltedSession = [ConsoleLog ''Live session opened'']"
  by (simp_all add: haltedSession_def playingSession_def sample_defs message_defs duration_def)

lemma haltedSession_calls:
  "unguardedCalls haltedSession =
     [TrackStop 0, SourceDisconnect, ProcessorDisconnect, InputContextClose, OutputContextClose]"
  by (simp add: unguardedCalls_def haltedSession_facts)

theorem C5_teardown_runs_through_witness:
  "sourceStop (sources haltedSession 0) = Inl InvalidStateError
   \<and> closeFault SessionClose
   \<and> (\<exists>s'. stopSession closeFault haltedSession = Returned s'
        \<and> torn s'
        \<and> console s' = console haltedSession @ [ConsoleError ''Error closing session'']
        \<and> streams s' 0 = [Ended]
        \<and> \<not> nodeConnected (nodes s' 0) \<and> \<not> nodeConnected (nodes s' 1)
        \<and> ctxClosed (contexts s' 0) \<and> ctxClosed (contexts s' 1)
        \<and> stopped (sources s' 0))"
proof -
  have q: "\<forall>call \<in> set (unguardedCalls haltedSession). \<not> closeFault call"
    by (simp add: haltedSession_calls closeFault_def)
  have f: "closeFault SessionClose" by (simp add: closeFault_def)
  have r: "sourceStop (sources haltedSession 0) = Inl InvalidStateError"
    by (simp add: sourceStop_def haltedSession_facts)
  from C5_teardown_runs_through [OF q] obtain s' where
    "stopSession closeFault haltedSession = Returned s'" "torn s'"
    "\<forall>k. sessionRef haltedSession = Some k \<longrightarrow>
           (if closeFault SessionClose
            then console s' = console haltedSession @ [ConsoleError ''Error closing session'']
            else sessionClosed (sessions s' k) \<and> console s' = console haltedSession)"
    "\<forall>st. streamRef haltedSession = Some st \<longrightarrow>
        streams s' st = replicate (length (streams haltedSession st)) Ended"
    "\<forall>n. sourceRef haltedSession = Some n \<longrightarrow> \<not> nodeConnected (nodes s' n)"
    "\<forall>n. processorRef haltedSession = Some n \<longrightarrow> \<not> nodeConnected (nodes s' n)"
    "\<forall>c. inputContextRef haltedSession = Some c \<longrightarrow> ctxClosed (contexts s' c)"
    "\<forall>c. outputContextRef haltedSession = Some c \<longrightarrow> ctxClosed (contexts s' c)"
    "\<forall>h \<in> set (scheduledSourcesRef haltedSession). stopped (sources s' h)"
    by blast
  then have "stopSession closeFault haltedSession = Returned s'
        \<and> torn s'
        \<and> console s' = console haltedSession @ [ConsoleError ''Error closing session'']
        \<and> streams s' 0 = [Ended]
        \<and> \<not> nodeConnected (nodes s' 0) \<and> \<not> nodeConnected (nodes s' 1)
        \<and> ctxClosed (contexts s' 0) \<and> ctxClosed (contexts s' 1)
        \<and> stopped (sources s' 0)"
    using f by (simp add: haltedSession_facts)
  then show ?thesis using r f by blast
qed

text \<open>
  The claim as stated fails twice. When the stop of the microphone track throws, the
  teardown ends there: the nodes stay connected, both contexts stay open and the state
  stays Connected. And when the stop of a scheduled source throws, nothing is logged.
\<close>

theorem C5_counterexample:
  "threw (stopSession trackFault liveSession)
   \<and> streams (stateOf (stopSession trackFault liveSession)) 0 = [Live]
   \<and> nodeConnected (nodes (stateOf (stopSession trackFault liveSession)) 0)
   \<and> nodeConnected (nodes (stateOf (stopSession trackFault liveSession)) 1)
   \<and> \<not> ctxClosed (contexts (stateOf (stopSession trackFault liveSession)) 0)
   \<and> \<not> ctxClosed (contexts (stateOf (stopSession trackFault liveSession)) 1)
   \<and> outputContextRef (stateOf (stopSession trackFault liveSession)) = Some 1
   \<and> status (stateOf (stopSession trackFault liveSession)) = Connected
   \<and> sourceStop (sources haltedSession 0) = Inl InvalidStateError
   \<and> stopSession noFault haltedSession = Returned (tornDown noFault haltedSession)
   \<and> console (tornDown noFault haltedSession) = console haltedSession"
proof -
  have t: "stopSession trackFault liveSession
      = Threw DeviceError (liveSession\<lparr> sessions := (sessions liveSession)(0 := \<lparr> sessionClosed = True \<rparr>),
                                       sessionRef := None,
                                       streams := (streams liveSession)(0 := [Live]) \<rparr>)"
    by (simp add: teardown_defs trackFault_def liveSession_facts)
  have l: "nodeConnected (nodes liveSession 0)" "nodeConnected (nodes liveSession 1)"
    "\<not> ctxClosed (contexts liveSession 0)" "\<not> ctxClosed (contexts liveSession 1)"
    by (simp_all add: sample_defs)
  have q: "\<forall>call \<in> set (unguardedCalls haltedSession). \<not> noFault call"
    by (simp add: noFault_def)
  have r: "sourceStop (sources haltedSession 0) = Inl InvalidStateError"
    by (simp add: sourceStop_def haltedSession_facts)
  have c: "console (tornDown noFault haltedSession) = console haltedSession"
    by (simp add: tornDown_console noFault_def split: option.splits)
  show ?thesis
    using l r c stopSession_quiet [OF q] by (simp add: t liveSession_facts)
qed

lemma threw_iff: "threw out \<longleftrightarrow> (\<forall>s'. out \<noteq> Returned s')"
  by (cases out) simp_all
















section \<open>Starting a session\<close>

lemma startSession_status:
  "status (startSession b s) =
     (if inputContextThrows b \<or> outputContextThrows b \<or> getUserMediaRejects b \<or> connectThrows b
      then Error else Connecting)"
  by (simp add: startSession_def startFailed_def consoleError_def Let_def)

lemma deniedStart_facts:
  "status (startSession denyingBrowser mounted) = Error"
  "\<not> isActive (startSession denyingBrowser mounted)"
  by (simp_all add: sample_defs)

text \<open>
  Claim C3, as the code has it. A click on the button while the state is Connecting does
  nothing (the button is disabled); while the session is active it stops the session and
  does not start one; otherwise, that is from Disconnected and from Error alike, it
  starts a session, and the state becomes Connecting, or Error when a device or the
  connection fails at once.
\<close>

theorem C3_start_gating:
  "(status s = Connecting \<longrightarrow> click b raises s = Returned s)
   \<and> (status s \<noteq> Connecting \<and> isActive s \<longrightarrow> click b raises s = stopSession raises s)
   \<and> (status s \<noteq> Connecting \<and> \<not> isActive s \<longrightarrow>
        click b raises s = Returned (startSession b s))
   \<and> status (startSession b s) =
        (if inputContextThrows b \<or> outputContextThrows b \<or> getUserMediaRejects b \<or> connectThrows b
         then Error else Connecting)"
  by (simp add: click_def buttonDisabled_def onClick_def startSession_status)

theorem C3_start_gating_witness:
  "status (startSession grantingBrowser mounted) = Connecting
   \<and> click grantingBrowser noFault (startSession grantingBrowser mounted)
        = Returned (startSession grantingBrowser mounted)
   \<and> status liveSession = Connected \<and> isActive liveSession
   \<and> click grantingBrowser noFault liveSession = stopSession noFault liveSession
   \<and> status mounted = Disconnected \<and> \<not> isActive mounted
   \<and> click grantingBrowser noFault mounted = Returned (startSession grantingBrowser mounted)"
proof -
  have g: "\<not> (inputContextThrows grantingBrowser \<or> outputContextThrows grantingBrowser
      \<or> getUserMediaRejects grantingBrowser \<or> connectThrows grantingBrowser)"
    by (simp add: grantingBrowser_def)
  have m: "status mounted = Disconnected" "\<not> isActive mounted" by (simp_all add: mounted_def)
  from C3_start_gating [of mounted grantingBrowser noFault] g
  have a: "status (startSession grantingBrowser mounted) = Connecting" by simp
  from C3_start_gating [of "startSession grantingBrowser mounted" grantingBrowser noFault] a
  have b: "click grantingBrowser noFault (startSession grantingBrowser mounted)
        = Returned (startSession grantingBrowser mounted)" by blast
  from C3_start_gating [of liveSession grantingBrowser noFault] liveSession_facts(1,2)
  have c: "click grantingBrowser noFault liveSession = stopSession noFault liveSession" by simp
  from C3_start_gating [of mounted grantingBrowser noFault] m
  have d: "click grantingBrowser noFault mounted = Returned (startSession grantingBrowser mounted)"
    by simp
  show ?thesis using a b c d m liveSession_facts(1,2) by (intro conjI)
qed

text \<open>
  The claim as stated fails in the state Error: after the microphone was denied the state
  is Error, and a click starts a session, which moves the state to Connecting.
\<close>

theorem C3_counterexample:
  "status (startSession denyingBrowser mounted) = Error
   \<and> click grantingBrowser noFault (startSession denyingBrowser mounted)
        = Returned (startSession grantingBrowser (startSession denyingBrowser mounted))
   \<and> status (startSession grantingBrowser (startSession denyingBrowser mounted)) = Connecting"
proof -
  have "status (startSession grantingBrowser (startSession denyingBrowser mounted)) = Connecting"
    by (simp add: startSession_status grantingBrowser_def)
  then show ?thesis
    using deniedStart_facts by (simp add: click_def buttonDisabled_def onClick_def)
qed

text \<open>
  Claim C4 against the code. The session is started with every device granted and the
  promise of the connection rejects: the state becomes Error, but the microphone stream
  stays in its ref with its track live and both audio contexts stay in their refs, open.
  The sibling callback \<^verbatim>\<open>onerror\<close> does run the teardown before it sets Error.
\<close>

theorem C4_connect_failure_keeps_resources:
  "status (connectRejected (startSession grantingBrowser mounted)) = Error
   \<and> streamRef (connectRejected (startSession grantingBrowser mounted)) = Some 0
   \<and> streams (connectRejected (startSession grantingBrowser mounted)) 0 = [Live]
   \<and> inputContextRef (connectRejected (startSession grantingBrowser mounted)) = Some 0
   \<and> \<not> ctxClosed (contexts (connectRejected (startSession grantingBrowser mounted)) 0)
   \<and> outputContextRef (connectRejected (startSession grantingBrowser mounted)) = Some 1
   \<and> \<not> ctxClosed (contexts (connectRejected (startSession grantingBrowser mounted)) 1)
   \<and> status (stateOf (onerror noFault (startSession grantingBrowser mounted))) = Error
   \<and> streamRef (stateOf (onerror noFault (startSession grantingBrowser mounted))) = None
   \<and> streams (stateOf (onerror noFault (startSession grantingBrowser mounted))) 0 = [Ended]
   \<and> ctxClosed (contexts (stateOf (onerror noFault (startSession grantingBrowser mounted))) 0)
   \<and> ctxClosed (contexts (stateOf (onerror noFault (startSession grantingBrowser mounted))) 1)"
proof -
  let ?s = "startSession grantingBrowser mounted"
  let ?e = "(consoleError ''Live session error'' ?s)\<lparr> errorMessage := Some ''Connection error occurred.'' \<rparr>"
  have s: "streamRef ?s = Some 0" "streams ?s 0 = [Live]" "inputContextRef ?s = Some 0"
    "outputContextRef ?s = Some 1" "\<not> ctxClosed (contexts ?s 0)" "\<not> ctxClosed (contexts ?s 1)"
    by (simp_all add: sample_defs)
  have r: "status (connectRejected ?s) = Error" "streamRef (connectRejected ?s) = streamRef ?s"
    "streams (connectRejected ?s) = streams ?s" "inputContextRef (connectRejected ?s) = inputContextRef ?s"
    "outputContextRef (connectRejected ?s) = outputContextRef ?s"
    "contexts (connectRejected ?s) = contexts ?s"
    by (simp_all add: connectRejected_def consoleError_def)
  have e: "streamRef ?e = Some 0" "streams ?e 0 = [Live]" "inputContextRef ?e = Some 0"
    "outputContextRef ?e = Some 1"
    using s by (simp_all add: consoleError_def)
  have q: "\<forall>call \<in> set (unguardedCalls ?e). \<not> noFault call" by (simp add: noFault_def)
  have o: "onerror noFault ?s = Returned ((tornDown noFault ?e)\<lparr> status := Error \<rparr>)"
    by (simp add: onerror_def stopSession_quiet [OF q])
  have t: "streamRef (tornDown noFault ?e) = None" "streams (tornDown noFault ?e) 0 = [Ended]"
    "ctxClosed (contexts (tornDown noFault ?e) 0)" "ctxClosed (contexts (tornDown noFault ?e) 1)"
    using e tornDown_torn [of noFault ?e] tornDown_stream [of ?e 0 noFault]
      tornDown_contexts [of ?e 0 noFault] tornDown_contexts [of ?e 1 noFault]
    by (simp_all add: torn_def)
  show ?thesis using s t by (simp add: r o)
qed

section \<open>The cursor is idle while no output context is held\<close>

lemma idle_view:
  "playbackView s' = playbackView s \<Longrightarrow> idleWhenReleased s' = idleWhenReleased s"
  by (simp add: playbackView_def idleWhenReleased_def)

lemma idle_mounted: "idleWhenReleased mounted"
  by (simp add: idleWhenReleased_def mounted_def)

lemma idle_startSession: "idleWhenReleased s \<Longrightarrow> idleWhenReleased (startSession b s)"
  by (simp add: idleWhenReleased_def startSession_def startFailed_def consoleError_def Let_def)

lemma idle_connectResolved: "idleWhenReleased s \<Longrightarrow> idleWhenReleased (connectResolved s)"
  by (simp add: idleWhenReleased_def connectResolved_def)

lemma idle_connectRejected: "idleWhenReleased s \<Longrightarrow> idleWhenReleased (connectRejected s)"
  by (simp add: idleWhenReleased_def connectRejected_def consoleError_def)

lemma idle_onopen: "idleWhenReleased s \<Longrightarrow> idleWhenReleased (onopen s)"
  by (simp add: idleWhenReleased_def onopen_def consoleLog_def Let_def)

lemma idle_onended: "idleWhenReleased s \<Longrightarrow> idleWhenReleased (onended h s)"
  by (simp add: idleWhenReleased_def onended_def setDelete_def)

lemma idle_onmessage: "idleWhenReleased s \<Longrightarrow> idleWhenReleased (onmessage utils now m s)"
proof (cases "outputContextRef s")
  case None
  then show "idleWhenReleased s \<Longrightarrow> ?thesis" by (simp add: onmessage_released)
next
  case (Some c)
  then have "outputContextRef (onmessage utils now m s) = Some c"
    by (simp add: onmessage_frame)
  then show ?thesis by (simp add: idleWhenReleased_def)
qed

lemma stateOf_andThen:
  "stateOf (andThen out f) = (case out of Returned s \<Rightarrow> stateOf (f s) | Threw e s \<Rightarrow> s)"
  by (cases out) simp_all

lemma view_andThen:
  assumes "playbackView (stateOf out) = v"
    and "\<And>s. playbackView (stateOf (f s)) = playbackView s"
  shows "playbackView (stateOf (andThen out f)) = v"
  using assms by (cases out) simp_all

lemma view_closeApiSession:
  "playbackView (stateOf (closeApiSession raises s)) = playbackView s"
  by (simp add: closeApiSession_def playbackView_def consoleError_def Let_def split: option.splits)

lemma view_stopMicrophoneStream:
  "playbackView (stateOf (stopMicrophoneStream raises s)) = playbackView s"
  by (simp add: stopMicrophoneStream_def playbackView_def split: option.splits prod.splits)

lemma view_disconnectSource:
  "playbackView (stateOf (disconnectSource raises s)) = playbackView s"
  by (simp add: disconnectSource_def playbackView_def split: option.splits)

lemma view_disconnectProcessor:
  "playbackView (stateOf (disconnectProcessor raises s)) = playbackView s"
  by (simp add: disconnectProcessor_def playbackView_def split: option.splits)

lemma view_closeInputContext:
  "playbackView (stateOf (closeInputContext raises s)) = playbackView s"
  by (simp add: closeInputContext_def playbackView_def split: option.splits)

lemma idle_outputTeardown:
  assumes "idleWhenReleased s"
  shows "idleWhenReleased
     (stateOf (andThen (andThen (stopOutputAudio s) (closeOutputContext raises)) resetState))"
proof (cases "outputContextRef s")
  case None
  then show ?thesis
    using assms
    by (simp add: stopOutputAudio_def closeOutputContext_def resetState_def idleWhenReleased_def)
next
  case (Some c)
  show ?thesis
  proof (cases "raises OutputContextClose")
    case True
    then show ?thesis
      using Some
      by (simp add: stopOutputAudio_def closeOutputContext_def resetState_def idleWhenReleased_def)
  next
    case False
    then show ?thesis
      using Some
      by (simp add: stopOutputAudio_def closeOutputContext_def resetState_def idleWhenReleased_def)
  qed
qed

lemma idle_stopSession:
  assumes idle: "idleWhenReleased s"
  shows "idleWhenReleased (stateOf (stopSession raises s))"
proof -
  let ?input = "andThen (andThen (andThen (andThen
       (closeApiSession raises s)
       (stopMicrophoneStream raises))
       (disconnectSource raises))
       (disconnectProcessor raises))
       (closeInputContext raises)"
  have v1: "playbackView (stateOf (closeApiSession raises s)) = playbackView s"
    by (rule view_closeApiSession)
  have v2: "playbackView (stateOf (andThen (closeApiSession raises s)
      (stopMicrophoneStream raises))) = playbackView s"
    by (rule view_andThen [OF v1]) (rule view_stopMicrophoneStream)
  have v3: "playbackView (stateOf (andThen (andThen (closeApiSession raises s)
      (stopMicrophoneStream raises)) (disconnectSource raises))) = playbackView s"
    by (rule view_andThen [OF v2]) (rule view_disconnectSource)
  have v4: "playbackView (stateOf (andThen (andThen (andThen (closeApiSession raises s)
      (stopMicrophoneStream raises)) (disconnectSource raises)) (disconnectProcessor raises)))
      = playbackView s"
    by (rule view_andThen [OF v3]) (rule view_disconnectProcessor)
  have v: "playbackView (stateOf ?input) = playbackView s"
    by (rule view_andThen [OF v4]) (rule view_closeInputContext)
  have i: "idleWhenReleased (stateOf ?input)"
    using idle idle_view [OF v] by simp
  have eq: "stopSession raises s
      = andThen (andThen (andThen ?input stopOutputAudio) (closeOutputContext raises)) resetState"
    by (simp add: stopSession_def)
  obtain out where out: "out = ?input" by simp
  have i': "idleWhenReleased (stateOf out)" using i out by simp
  have eq': "stopSession raises s
      = andThen (andThen (andThen out stopOutputAudio) (closeOutputContext raises)) resetState"
    using eq out by simp
  show ?thesis
  proof (cases out)
    case (Returned s5)
    then show ?thesis
      using i' idle_outputTeardown [of s5 raises] unfolding eq' by simp
  next
    case (Threw e s5)
    then show ?thesis using i' unfolding eq' by simp
  qed
qed

lemma idle_onclose: "idleWhenReleased s \<Longrightarrow> idleWhenReleased (stateOf (onclose raises s))"
  unfolding onclose_def
  by (rule idle_stopSession) (simp add: idleWhenReleased_def consoleLog_def)

lemma idle_onerror: "idleWhenReleased s \<Longrightarrow> idleWhenReleased (stateOf (onerror raises s))"
proof -
  assume idle: "idleWhenReleased s"
  let ?e = "(consoleError ''Live session error'' s)\<lparr> errorMessage := Some ''Connection error occurred.'' \<rparr>"
  have "idleWhenReleased ?e" using idle by (simp add: idleWhenReleased_def consoleError_def)
  then have "idleWhenReleased (stateOf (stopSession raises ?e))" by (rule idle_stopSession)
  then show ?thesis
    by (cases "stopSession raises ?e") (simp_all add: onerror_def idleWhenReleased_def)
qed

lemma idle_click: "idleWhenReleased s \<Longrightarrow> idleWhenReleased (stateOf (click b raises s))"
  by (simp add: click_def onClick_def idle_stopSession idle_startSession)

text \<open>
  A callback that was suspended on its decode and resumes after the teardown still
  schedules its buffer: the set and the cursor are then not idle though no output context
  is held.
\<close>

lemma late_resume_not_idle:
  "\<not> idleWhenReleased
       (onmessageResume 3 \<lparr> awaited = Inr \<lparr> channelData = [0, 0], bufferSampleRate = 24000 \<rparr>,
                             flagged = False \<rparr>
          (tornDown noFault liveSession))"
  by (simp add: idleWhenReleased_def onmessageResume_def interruptionTail_def schedulePlayback_def
      sourceStart_def setAdd_def tornDown_def Let_def)

section \<open>The sample codec: round trip\<close>

lemma bytes_word: "word_cat (ucast (drop_bit 8 w) :: 8 word) (ucast w :: 8 word) = (w :: 16 word)"
  by (rule bit_word_eqI) (auto simp: bit_word_cat_iff bit_ucast_iff bit_drop_bit_eq)

lemma sint_int16:
  assumes "- 32768 \<le> k" "k \<le> 32767"
  shows "sint (word_of_int k :: 16 word) = k"
proof -
  have "sint (word_of_int k :: 16 word) = signed_take_bit 15 k"
    by (simp add: sint_sbintrunc')
  also have "\<dots> = k"
    using assms by (simp add: signed_take_bit_int_eq_self)
  finally show ?thesis .
qed

lemma decode_int16Bytes:
  assumes "- 32768 \<le> k" "k \<le> 32767"
  shows "decodeFromPCM16 (int16Bytes k @ rest) = real_of_int k / 32768 # decodeFromPCM16 rest"
  using assms by (simp add: int16Bytes_def Let_def bytes_word sint_int16)

lemma scaleToInt16_range: "- 32768 \<le> scaleToInt16 rnd x \<and> scaleToInt16 rnd x \<le> 32767"
  by (simp add: scaleToInt16_def)

lemma decode_encode:
  "decodeFromPCM16 (encodeToPCM16 rnd s) = map (\<lambda>x. real_of_int (scaleToInt16 rnd x) / 32768) s"
proof (induction s)
  case Nil
  then show ?case by (simp add: encodeToPCM16_def)
next
  case (Cons x s)
  have "decodeFromPCM16 (encodeToPCM16 rnd (x # s))
      = decodeFromPCM16 (int16Bytes (scaleToInt16 rnd x) @ encodeToPCM16 rnd s)"
    by (simp add: encodeToPCM16_def)
  also have "\<dots> = real_of_int (scaleToInt16 rnd x) / 32768 # decodeFromPCM16 (encodeToPCM16 rnd s)"
    using scaleToInt16_range [of rnd x] by (simp add: decode_int16Bytes)
  finally show ?case using Cons by simp
qed

lemma quantisation:
  assumes rounding: "\<forall>y. \<bar>real_of_int (rnd y) - y\<bar> < 1"
    and range: "- 1 \<le> x" "x \<le> 1"
  shows "\<bar>real_of_int (scaleToInt16 rnd x) / 32768 - x\<bar> \<le> 1 / 32768"
proof -
  let ?y = "x * 32768"
  let ?r = "rnd ?y"
  have c: "clampSample x = x" using range by (simp add: clampSample_def)
  have y: "- 32768 \<le> ?y" "?y \<le> 32768" using range by simp_all
  have r: "\<bar>real_of_int ?r - ?y\<bar> < 1" using rounding by blast
  have lo: "- 32768 \<le> ?r"
  proof -
    have "real_of_int ?r > - 32769" using r y by linarith
    then have "?r > - 32769" by linarith
    then show ?thesis by simp
  qed
  have hi: "?r \<le> 32768"
  proof -
    have "real_of_int ?r < 32769" using r y by linarith
    then have "?r < 32769" by linarith
    then show ?thesis by simp
  qed
  have q: "\<bar>real_of_int (scaleToInt16 rnd x) - ?y\<bar> \<le> 1"
  proof (cases "?r = 32768")
    case True
    then have "scaleToInt16 rnd x = 32767" by (simp add: scaleToInt16_def c)
    moreover have "?y > 32767" using r True by simp
    ultimately show ?thesis using y by simp
  next
    case False
    then have "?r \<le> 32767" using hi by simp
    then have "scaleToInt16 rnd x = ?r" using lo by (simp add: scaleToInt16_def c)
    then show ?thesis using r by simp
  qed
  have "real_of_int (scaleToInt16 rnd x) / 32768 - x = (real_of_int (scaleToInt16 rnd x) - ?y) / 32768"
    by (simp add: field_simps)
  then have "\<bar>real_of_int (scaleToInt16 rnd x) / 32768 - x\<bar>
      = \<bar>real_of_int (scaleToInt16 rnd x) - ?y\<bar> / 32768"
    by (simp only: abs_divide abs_numeral)
  then show ?thesis using q by simp
qed

text \<open>
  Claim C9. For samples between -1 and 1, decoding the encoded samples gives as many
  samples back, each within 1/32768 of the one that went in, whatever the rounding, as
  long as it moves a number by less than one.
\<close>

theorem C9_pcm16_roundtrip:
  assumes rounding: "\<forall>y. \<bar>real_of_int (rnd y) - y\<bar> < 1"
    and range: "\<forall>x \<in> set s. - 1 \<le> x \<and> x \<le> 1"
  shows "length (decodeFromPCM16 (encodeToPCM16 rnd s)) = length s
     \<and> (\<forall>i < length s. \<bar>decodeFromPCM16 (encodeToPCM16 rnd s) ! i - s ! i\<bar> \<le> 1 / 32768)"
proof (intro conjI allI impI)
  show "length (decodeFromPCM16 (encodeToPCM16 rnd s)) = length s"
    by (simp add: decode_encode)
next
  fix i assume i: "i < length s"
  then have "s ! i \<in> set s" by simp
  with range have "- 1 \<le> s ! i" "s ! i \<le> 1" by auto
  then show "\<bar>decodeFromPCM16 (encodeToPCM16 rnd s) ! i - s ! i\<bar> \<le> 1 / 32768"
    using i quantisation [OF rounding] by (simp add: decode_encode)
qed

lemma truncate_rounding: "\<forall>y. \<bar>real_of_int (truncateToInt y) - y\<bar> < 1"
  unfolding truncateToInt_def by (intro allI) (simp, linarith)

lemma pcm16_example:
  "encodeToPCM16 truncateToInt [1, - 1, 1 / 2, 1 / 3] = [255, 127, 0, 128, 0, 64, 170, 42]"
  "decodeFromPCM16 [255, 127, 0, 128, 0, 64, 170, 42] = [32767 / 32768, - 1, 1 / 2, 5461 / 16384]"
  by (simp_all add: encodeToPCM16_def int16Bytes_def scaleToInt16_def clampSample_def
      truncateToInt_def Let_def word_cat_eq)

theorem C9_pcm16_roundtrip_witness:
  "decodeFromPCM16 (encodeToPCM16 truncateToInt [1, - 1, 1 / 2, 1 / 3])
     = [32767 / 32768, - 1, 1 / 2, 5461 / 16384]
   \<and> length (decodeFromPCM16 (encodeToPCM16 truncateToInt [1, - 1, 1 / 2, 1 / 3])) = 4
   \<and> \<bar>decodeFromPCM16 (encodeToPCM16 truncateToInt [1, - 1, 1 / 2, 1 / 3]) ! 0 - 1\<bar> \<le> 1 / 32768
   \<and> \<bar>decodeFromPCM16 (encodeToPCM16 truncateToInt [1, - 1, 1 / 2, 1 / 3]) ! 3 - 1 / 3\<bar> \<le> 1 / 32768"
proof -
  let ?s = "[1, - 1, 1 / 2, 1 / 3] :: real list"
  have range: "\<forall>x \<in> set ?s. - 1 \<le> x \<and> x \<le> 1" by simp
  note inst = C9_pcm16_roundtrip [OF truncate_rounding range]
  from inst have l: "length (decodeFromPCM16 (encodeToPCM16 truncateToInt ?s)) = length ?s"
    and b: "\<forall>i < length ?s. \<bar>decodeFromPCM16 (encodeToPCM16 truncateToInt ?s) ! i - ?s ! i\<bar> \<le> 1 / 32768"
    by blast+
  have l4: "length (decodeFromPCM16 (encodeToPCM16 truncateToInt ?s)) = 4"
    using l by simp
  have "(0::nat) < length ?s" "(3::nat) < length ?s" by simp_all
  with b have "\<bar>decodeFromPCM16 (encodeToPCM16 truncateToInt ?s) ! 0 - ?s ! 0\<bar> \<le> 1 / 32768"
    and "\<bar>decodeFromPCM16 (encodeToPCM16 truncateToInt ?s) ! 3 - ?s ! 3\<bar> \<le> 1 / 32768"
    by blast+
  then have b0: "\<bar>decodeFromPCM16 (encodeToPCM16 truncateToInt ?s) ! 0 - 1\<bar> \<le> 1 / 32768"
    and b3: "\<bar>decodeFromPCM16 (encodeToPCM16 truncateToInt ?s) ! 3 - 1 / 3\<bar> \<le> 1 / 32768"
    by (simp_all add: numeral_3_eq_3)
  have v: "decodeFromPCM16 (encodeToPCM16 truncateToInt ?s)
     = [32767 / 32768, - 1, 1 / 2, 5461 / 16384]"
    by (simp only: pcm16_example)
  show ?thesis using v l4 b0 b3 by (intro conjI)
qed

end
